theory Spec2Isabelle
  imports Complex_Main "HOL-Library.Sublist" "HOL-Library.List_Lexorder" "HOL-Library.Char_ord"
begin

section \<open>Python values used by the scripts\<close>

text \<open>
  The four scripts are Python. Integers are unbounded (\<open>int\<close>), strings are lists of
  characters, a \<open>pathlib.Path\<close> is the list of its components. A \<open>float\<close> holding a
  segment time is modelled by the rational number it denotes: every finite float is one,
  \<open>%\<close> by a positive constant is exact on floats (it is \<open>fmod\<close>), \<open>//\<close> is the
  exact floor of the quotient for the magnitudes a transcript can hold (below \<open>2^53\<close>
  seconds), and \<open>format(x, '.3f')\<close> rounds the exact value to the nearest thousandth,
  ties to even. Not-a-number and the infinities are outside the model.
\<close>

type_synonym path = "string list"

datatype py_error = ZeroDivisionError | EOFError | OSError | OtherException

subsection \<open>Formatting integers: \<open>str(n)\<close> and \<open>f"{n:0wd}"\<close>\<close>

definition digit_char :: "nat \<Rightarrow> char" where
  "digit_char d = ''0123456789'' ! d"

function dec :: "nat \<Rightarrow> string" where
  "dec n = (if n < 10 then [digit_char n] else dec (n div 10) @ [digit_char (n mod 10)])"
  by pat_completeness auto
termination
  by (relation "measure id") auto

declare dec.simps [simp del]

definition zfill :: "nat \<Rightarrow> string \<Rightarrow> string" where
  "zfill w s = replicate (w - length s) CHR ''0'' @ s"

text \<open>\<open>f"{n:0wd}"\<close>: the sign first, then zeros up to the minimum width \<open>w\<close>.\<close>

definition fmt_0d :: "nat \<Rightarrow> int \<Rightarrow> string" where
  "fmt_0d w n = (if n < 0 then ''-'' @ zfill (w - 1) (dec (nat (- n))) else zfill w (dec (nat n)))"

definition is_digit :: "char \<Rightarrow> bool" where
  "is_digit c = (c \<in> set ''0123456789'')"

definition all_digits :: "string \<Rightarrow> bool" where
  "all_digits s = list_all is_digit s"

subsection \<open>Float arithmetic and \<open>f"{x:0w.3f}"\<close>\<close>

definition round_half_even :: "rat \<Rightarrow> int" where
  "round_half_even q =
     (let f = \<lfloor>q\<rfloor>; r = q - of_int f
      in if r < 1 / 2 then f else if 1 / 2 < r then f + 1 else if even f then f else f + 1)"

definition fmt_0_3f :: "nat \<Rightarrow> rat \<Rightarrow> string" where
  "fmt_0_3f w x =
     (let ms = nat (round_half_even (\<bar>x\<bar> * 1000));
          body = dec (ms div 1000) @ ''.'' @ zfill 3 (dec (ms mod 1000))
      in if x < 0 then ''-'' @ zfill (w - 1) body else zfill w body)"

text \<open>\<open>x // y\<close> and \<open>x % y\<close> on floats, and \<open>int(x)\<close> (truncation towards zero).\<close>

definition py_floordiv :: "rat \<Rightarrow> rat \<Rightarrow> rat" where
  "py_floordiv x y = of_int \<lfloor>x / y\<rfloor>"

definition py_mod :: "rat \<Rightarrow> rat \<Rightarrow> rat" where
  "py_mod x y = x - y * of_int \<lfloor>x / y\<rfloor>"

definition py_int :: "rat \<Rightarrow> int" where
  "py_int x = (if 0 \<le> x then \<lfloor>x\<rfloor> else \<lceil>x\<rceil>)"

text \<open>\<open>s.replace(a, b)\<close> for one-character \<open>a\<close> and \<open>b\<close>.\<close>

definition str_replace_char :: "char \<Rightarrow> char \<Rightarrow> string \<Rightarrow> string" where
  "str_replace_char a b s = map (\<lambda>c. if c = a then b else c) s"

section \<open>Format renderers (transcribe\_audio.py)\<close>

definition format_time_srt :: "rat \<Rightarrow> string" where
  "format_time_srt seconds =
     (let hours = py_int (py_floordiv seconds 3600);
          minutes = py_int (py_floordiv (py_mod seconds 3600) 60);
          seconds' = py_mod seconds 60
      in str_replace_char CHR ''.'' CHR '',''
           (fmt_0d 2 hours @ '':'' @ fmt_0d 2 minutes @ '':'' @ fmt_0_3f 6 seconds'))"

definition format_time_vtt :: "rat \<Rightarrow> string" where
  "format_time_vtt seconds =
     (let hours = py_int (py_floordiv seconds 3600);
          minutes = py_int (py_floordiv (py_mod seconds 3600) 60);
          seconds' = py_mod seconds 60
      in fmt_0d 2 hours @ '':'' @ fmt_0d 2 minutes @ '':'' @ fmt_0_3f 6 seconds')"

subsection \<open>Subtitle blocks\<close>

text \<open>
  A Whisper segment is a dictionary; the renderers read its keys \<open>start\<close>, \<open>end\<close> and
  \<open>text\<close> only.
\<close>

record segment =
  seg_start :: rat
  seg_end :: rat
  seg_text :: string

abbreviation nl :: char where
  "nl \<equiv> CHR 0x0A"

text \<open>\<open>str.strip()\<close>: whitespace is removed at both ends (the ASCII whitespace of Python).\<close>

definition is_space :: "char \<Rightarrow> bool" where
  "is_space c = (c \<in> set [CHR '' '', CHR 0x09, nl, CHR 0x0B, CHR 0x0C, CHR 0x0D,
                           CHR 0x1C, CHR 0x1D, CHR 0x1E, CHR 0x1F])"

definition str_strip :: "string \<Rightarrow> string" where
  "str_strip s = rev (dropWhile is_space (rev (dropWhile is_space s)))"

text \<open>The text one iteration of \<open>generate_srt\<close> appends, for the counter value \<open>i\<close>.\<close>

definition srt_block :: "nat \<Rightarrow> segment \<Rightarrow> string" where
  "srt_block i seg =
     (let start_time = format_time_srt (seg_start seg);
          end_time = format_time_srt (seg_end seg);
          text = str_strip (seg_text seg)
      in dec i @ [nl] @ start_time @ '' --> '' @ end_time @ [nl] @ text @ [nl, nl])"

fun srt_loop :: "nat \<Rightarrow> segment list \<Rightarrow> string \<Rightarrow> string" where
  "srt_loop i [] srt_content = srt_content"
| "srt_loop i (seg # segments) srt_content = srt_loop (i + 1) segments (srt_content @ srt_block i seg)"

definition generate_srt :: "segment list \<Rightarrow> string" where
  "generate_srt segments = srt_loop 1 segments []"

definition vtt_block :: "segment \<Rightarrow> string" where
  "vtt_block seg =
     (let start_time = format_time_vtt (seg_start seg);
          end_time = format_time_vtt (seg_end seg);
          text = str_strip (seg_text seg)
      in start_time @ '' --> '' @ end_time @ [nl] @ text @ [nl, nl])"

fun vtt_loop :: "segment list \<Rightarrow> string \<Rightarrow> string" where
  "vtt_loop [] vtt_content = vtt_content"
| "vtt_loop (seg # segments) vtt_content = vtt_loop segments (vtt_content @ vtt_block seg)"

definition generate_vtt :: "segment list \<Rightarrow> string" where
  "generate_vtt segments = vtt_loop segments (''WEBVTT'' @ [nl, nl])"

text \<open>
  The relation between the two outputs, in the words of the specification: the blocks the
  SRT renderer emits, each without its first line (the sequence number) and with the
  commas of its next line (the time range) turned into periods.
\<close>

definition srt_blocks :: "segment list \<Rightarrow> string list" where
  "srt_blocks segments = map (\<lambda>(i, seg). srt_block i seg) (zip [1..<Suc (length segments)] segments)"

definition first_line :: "string \<Rightarrow> string" where
  "first_line s = takeWhile (\<lambda>c. c \<noteq> nl) s"

definition drop_first_line :: "string \<Rightarrow> string" where
  "drop_first_line s = drop (Suc (length (first_line s))) s"

definition block_without_number :: "string \<Rightarrow> string" where
  "block_without_number blk =
     (let rest = drop_first_line blk
      in str_replace_char CHR '','' CHR ''.'' (first_line rest) @ drop (length (first_line rest)) rest)"

section \<open>The world the scripts act on\<close>

text \<open>
  The file system maps a path to a directory or to a file with its content; the event
  list records, in order, every call that reaches outside the script (a directory
  creation, a load, an export, a prompt, a subprocess, a model call, a file write),
  whether or not the call succeeds. Console output is not modelled.
\<close>

datatype 'c node = Dir | File 'c

record 'a chunk =
  chunk_path :: path
  start_ms :: int
  end_ms :: int
  chunk_data :: "'a list"

text \<open>
  How \<open>subprocess.run\<close> ends: the process exits with a return code, the program is
  not found (\<open>FileNotFoundError\<close>), or another exception is raised.
\<close>

datatype proc_outcome = Exited int | NotFound | OtherError

datatype 'a event =
    Mkdir path
  | LoadAudio path
  | Export "'a chunk"
  | Input
  | Subprocess "string list" proc_outcome
  | LoadModel string
  | Transcribe path "(string \<times> string) list"
  | WriteFile path

record ('a, 'c) world =
  fs :: "path \<rightharpoonup> 'c node"
  events :: "'a event list"

definition emit :: "'a event \<Rightarrow> ('a, 'c) world \<Rightarrow> ('a, 'c) world" where
  "emit e w = w\<lparr>events := events w @ [e]\<rparr>"

text \<open>\<open>Path.exists()\<close>, \<open>Path.is_file()\<close>, \<open>Path.is_dir()\<close>.\<close>

definition path_exists :: "('a, 'c) world \<Rightarrow> path \<Rightarrow> bool" where
  "path_exists w p = (fs w p \<noteq> None)"

definition is_file :: "'c node option \<Rightarrow> bool" where
  "is_file n = (case n of Some (File _) \<Rightarrow> True | _ \<Rightarrow> False)"

definition is_dir :: "'c node option \<Rightarrow> bool" where
  "is_dir n = (case n of Some Dir \<Rightarrow> True | _ \<Rightarrow> False)"

text \<open>
  \<open>Path.mkdir(parents=True, exist_ok=True)\<close>: creates the directory and its missing
  ancestors. It raises when the path or an ancestor is a file, or when the system refuses
  (\<open>permitted\<close>); the result says whether it returned normally.
\<close>

definition mkdir_parents :: "(path \<Rightarrow> bool) \<Rightarrow> path \<Rightarrow> ('a, 'c) world \<Rightarrow> bool \<times> ('a, 'c) world" where
  "mkdir_parents permitted p w =
     (let w1 = emit (Mkdir p) w
      in if \<not> permitted p \<or> list_ex (\<lambda>q. is_file (fs w1 q)) (prefixes p) then (False, w1)
         else (True, w1\<lparr>fs := fold (\<lambda>q f. if f q = None then f(q \<mapsto> Dir) else f) (prefixes p) (fs w1)\<rparr>))"

text \<open>\<open>Path.name\<close>, \<open>str.rfind\<close>, \<open>Path.stem\<close> and \<open>Path.parent\<close>.\<close>

definition path_name :: "path \<Rightarrow> string" where
  "path_name p = (if p = [] then [] else last p)"

definition rfind :: "char \<Rightarrow> string \<Rightarrow> nat option" where
  "rfind c s =
     (let k = length (takeWhile (\<lambda>x. x \<noteq> c) (rev s))
      in if k = length s then None else Some (length s - 1 - k))"

definition path_stem :: "path \<Rightarrow> string" where
  "path_stem p =
     (let name = path_name p
      in case rfind CHR ''.'' name of
           Some i \<Rightarrow> if 0 < i \<and> i < length name - 1 then take i name else name
         | None \<Rightarrow> name)"

definition path_parent :: "path \<Rightarrow> path" where
  "path_parent p = butlast p"

text \<open>\<open>str(path)\<close> and \<open>str(n)\<close> for an integer.\<close>

fun path_str :: "path \<Rightarrow> string" where
  "path_str [] = ''.''"
| "path_str [c] = c"
| "path_str (c # cs) = c @ ''/'' @ path_str cs"

definition str_int :: "int \<Rightarrow> string" where
  "str_int n = (if n < 0 then ''-'' @ dec (nat (- n)) else dec (nat n))"

text \<open>\<open>str.lower()\<close> on ASCII letters.\<close>

definition char_lower :: "char \<Rightarrow> char" where
  "char_lower c =
     (if CHR ''A'' \<le> c \<and> c \<le> CHR ''Z'' then char_of (of_char c + (32::nat)) else c)"

definition str_lower :: "string \<Rightarrow> string" where
  "str_lower s = map char_lower s"

section \<open>Chunker (cut\_audio.py)\<close>

text \<open>
  A loaded \<open>AudioSegment\<close> is the list of its milliseconds: \<open>len(audio)\<close> is its length
  and \<open>audio[start:end]\<close> the slice between two millisecond positions (positions beyond
  the end are clamped, negative ones count from the end).
\<close>

definition slice_ms :: "'a list \<Rightarrow> int \<Rightarrow> int \<Rightarrow> 'a list" where
  "slice_ms audio start stop =
     (let n = int (length audio);
          pos = (\<lambda>v. if v < 0 then n - \<bar>v\<bar> else v);
          s = pos (min start n);
          e = pos (min stop n)
      in take (nat (e - s)) (drop (nat s) audio))"

text \<open>
  What the chunker cannot decide by itself: whether the system lets it create the output
  directory, what loading the input gives (\<open>None\<close>: the loader raises; the three
  loaders chosen by the extension are one parameter), whether the export of the chunk of
  loop index \<open>i\<close> returns normally, and what a failed export leaves at the chunk's path.
\<close>

record 'a cut_env =
  mkdir_permitted :: "path \<Rightarrow> bool"
  load_audio :: "path \<Rightarrow> 'a list option"
  export_ok :: "nat \<Rightarrow> bool"
  export_leftover :: "nat \<Rightarrow> 'a list node option \<Rightarrow> 'a list node option"

definition chunk_filename :: "nat \<Rightarrow> string \<Rightarrow> string" where
  "chunk_filename i output_format = ''part_'' @ fmt_0d 3 (int i + 1) @ ''.'' @ output_format"

text \<open>One iteration of the loop of lines 78 to 95, on the pair of the counter and the world.\<close>

definition cut_step ::
  "'a cut_env \<Rightarrow> 'a list \<Rightarrow> int \<Rightarrow> int \<Rightarrow> path \<Rightarrow> string \<Rightarrow>
     int \<times> ('a, 'a list) world \<Rightarrow> nat \<Rightarrow> int \<times> ('a, 'a list) world" where
  "cut_step env audio chunk_duration_ms total_duration_ms output_path output_format st i =
     (let successful_chunks = fst st; w = snd st;
          start = int i * chunk_duration_ms;
          stop = min ((int i + 1) * chunk_duration_ms) total_duration_ms;
          chunk = slice_ms audio start stop;
          cpath = output_path @ [chunk_filename i output_format];
          w1 = emit (Export \<lparr>chunk_path = cpath, start_ms = start, end_ms = stop, chunk_data = chunk\<rparr>) w
      in if export_ok env i
         then (successful_chunks + 1, w1\<lparr>fs := (fs w1)(cpath \<mapsto> File chunk)\<rparr>)
         else (successful_chunks,
               w1\<lparr>fs := (fs w1)(cpath := export_leftover env i (fs w1 cpath))\<rparr>))"

text \<open>
  Lines 67 to 96: the chunk parameters and the loop. The result is the pair of
  \<open>successful_chunks\<close> and \<open>num_chunks\<close> (the two numbers of the final message) and
  the world. The quotient \<open>total_duration_ms / chunk_duration_ms\<close> is the exact one (a
  float in the source, whose ceiling is the exact ceiling for durations below \<open>2^53\<close>
  milliseconds); dividing by zero raises.
\<close>

definition cut_chunks ::
  "'a cut_env \<Rightarrow> 'a list \<Rightarrow> int \<Rightarrow> path \<Rightarrow> string \<Rightarrow> ('a, 'a list) world \<Rightarrow>
     py_error + ((int \<times> int) \<times> ('a, 'a list) world)" where
  "cut_chunks env audio chunk_duration output_path output_format w =
     (let chunk_duration_ms = chunk_duration * 60 * 1000;
          total_duration_ms = int (length audio)
      in if chunk_duration_ms = 0 then Inl ZeroDivisionError
         else
           let num_chunks = \<lceil>rat_of_int total_duration_ms / rat_of_int chunk_duration_ms\<rceil>;
               st = foldl (cut_step env audio chunk_duration_ms total_duration_ms output_path output_format)
                      (0, w) [0..<nat num_chunks]
           in Inr ((fst st, num_chunks), snd st))"

text \<open>Lines 97 to 102: the chunker succeeds when every computed chunk was exported.\<close>

definition cut_verdict :: "int \<times> int \<Rightarrow> bool" where
  "cut_verdict r = (fst r = snd r)"

definition cut_audio_file ::
  "'a cut_env \<Rightarrow> path \<Rightarrow> int \<Rightarrow> path option \<Rightarrow> string \<Rightarrow> ('a, 'a list) world \<Rightarrow>
     (py_error + bool) \<times> ('a, 'a list) world" where
  "cut_audio_file env input_path chunk_duration output_dir output_format w =
     (if \<not> path_exists w input_path then (Inr False, w)
      else
        let output_path = (case output_dir of None \<Rightarrow> [path_stem input_path @ ''_chunks''] | Some d \<Rightarrow> d)
        in case mkdir_parents (mkdir_permitted env) output_path w of
             (False, w1) \<Rightarrow> (Inr False, w1)
           | (True, w1) \<Rightarrow>
               let w2 = emit (LoadAudio input_path) w1
               in case load_audio env input_path of
                    None \<Rightarrow> (Inr False, w2)
                  | Some audio \<Rightarrow>
                      (case cut_chunks env audio chunk_duration output_path output_format w2 of
                         Inl e \<Rightarrow> (Inl e, w2)
                       | Inr (r, w3) \<Rightarrow> (Inr (cut_verdict r), w3)))"

text \<open>The chunks handed to \<open>export\<close>, in the order of the calls.\<close>

definition exports :: "'a event list \<Rightarrow> 'a chunk list" where
  "exports es = concat (map (\<lambda>e. case e of Export c \<Rightarrow> [c] | _ \<Rightarrow> []) es)"

definition new_exports :: "('a, 'c) world \<Rightarrow> ('a, 'c) world \<Rightarrow> 'a chunk list" where
  "new_exports w w' = drop (length (exports (events w))) (exports (events w'))"

section \<open>Converter (video\_to\_audio.py)\<close>

text \<open>
  What the converter cannot decide by itself: the line the user types at the prompt
  (\<open>None\<close>: \<open>input\<close> raises \<open>EOFError\<close>, which nothing catches) and what running
  the FFmpeg command does to the file system and how it ends.
\<close>

record 'c conv_env =
  user_input :: "string option"
  ffmpeg :: "string list \<Rightarrow> (path \<rightharpoonup> 'c node) \<Rightarrow> proc_outcome \<times> (path \<rightharpoonup> 'c node)"

definition ffmpeg_cmd :: "path \<Rightarrow> path \<Rightarrow> string \<Rightarrow> string \<Rightarrow> string list" where
  "ffmpeg_cmd input_path output_path audio_format quality =
     [''ffmpeg'', ''-i'', path_str input_path, ''-vn'',
      ''-acodec'', (if audio_format = ''mp3'' then ''libmp3lame'' else ''copy''),
      ''-ab'', quality, ''-y'', path_str output_path]"

text \<open>Lines 43 to 74: the command is run; only return code 0 is success.\<close>

definition run_ffmpeg ::
  "'c conv_env \<Rightarrow> path \<Rightarrow> path \<Rightarrow> string \<Rightarrow> string \<Rightarrow> ('a, 'c) world \<Rightarrow>
     (py_error + bool) \<times> ('a, 'c) world" where
  "run_ffmpeg env input_path output_path audio_format quality w =
     (let cmd = ffmpeg_cmd input_path output_path audio_format quality;
          r = ffmpeg env cmd (fs w);
          w1 = (emit (Subprocess cmd (fst r)) w)\<lparr>fs := snd r\<rparr>
      in case fst r of
           Exited returncode \<Rightarrow> (Inr (returncode = 0), w1)
         | NotFound \<Rightarrow> (Inr False, w1)
         | OtherError \<Rightarrow> (Inr False, w1))"

definition convert_video_to_audio ::
  "'c conv_env \<Rightarrow> path \<Rightarrow> path option \<Rightarrow> string \<Rightarrow> string \<Rightarrow> ('a, 'c) world \<Rightarrow>
     (py_error + bool) \<times> ('a, 'c) world" where
  "convert_video_to_audio env input_path output_file audio_format quality w =
     (if \<not> path_exists w input_path then (Inr False, w)
      else
        let output_path = (case output_file of
                             None \<Rightarrow> [path_stem input_path @ ''.'' @ audio_format]
                           | Some f \<Rightarrow> f)
        in if path_exists w output_path
           then
             let w1 = emit Input w
             in case user_input env of
                  None \<Rightarrow> (Inl EOFError, w1)
                | Some response \<Rightarrow>
                    if str_lower response \<noteq> ''y'' then (Inr False, w1)
                    else run_ffmpeg env input_path output_path audio_format quality w1
           else run_ffmpeg env input_path output_path audio_format quality w)"

section \<open>Transcriber (transcribe\_audio.py)\<close>

text \<open>
  \<open>Path.glob\<close> with a pattern \<open>*.ext\<close> yields the entries of the directory whose
  name ends with \<open>.ext\<close>. The comparison is the one \<open>pathlib\<close> makes on POSIX
  systems (Linux and macOS, the systems the scripts give installation hints for): it
  distinguishes upper and lower case. The entries come in the order the system
  enumerates them (\<open>scandir\<close>).
\<close>

definition fnmatch_star :: "string \<Rightarrow> string \<Rightarrow> bool" where
  "fnmatch_star ext name = suffix ext name"

definition glob :: "string list \<Rightarrow> path \<Rightarrow> string \<Rightarrow> path list" where
  "glob entries dir ext = map (\<lambda>name. dir @ [name]) (filter (fnmatch_star ext) entries)"

definition audio_extensions :: "string list" where
  "audio_extensions = [''.mp3'', ''.wav'', ''.m4a'', ''.flac'', ''.aac'']"

text \<open>
  The result of \<open>whisper_model.transcribe\<close>: the renderers and the writer read its
  text and its segments; its JSON form is a parameter.
\<close>

record whisper_result =
  res_text :: string
  res_segments :: "segment list"

record trans_env =
  scandir :: "path \<Rightarrow> string list"
  trans_mkdir_permitted :: "path \<Rightarrow> bool"
  load_model_ok :: "string \<Rightarrow> bool"
  transcribe :: "path \<Rightarrow> (string \<times> string) list \<Rightarrow> whisper_result option"
  json_dumps :: "whisper_result \<Rightarrow> string"
  write_ok :: "path \<Rightarrow> bool"

text \<open>Lines 82 to 84: the keyword arguments of the engine call.\<close>

definition transcribe_options :: "string \<Rightarrow> (string \<times> string) list" where
  "transcribe_options language = (if language \<noteq> ''auto'' then [(''language'', language)] else [])"

text \<open>Lines 88 to 105: the output file and its content; \<open>None\<close> for an unsupported format.\<close>

definition render :: "trans_env \<Rightarrow> path \<Rightarrow> string \<Rightarrow> string \<Rightarrow> whisper_result \<Rightarrow> (path \<times> string) option" where
  "render env output_path base_name output_format result =
     (if output_format = ''txt'' then Some (output_path @ [base_name @ ''.txt''], res_text result)
      else if output_format = ''json'' then Some (output_path @ [base_name @ ''.json''], json_dumps env result)
      else if output_format = ''srt'' then Some (output_path @ [base_name @ ''.srt''], generate_srt (res_segments result))
      else if output_format = ''vtt'' then Some (output_path @ [base_name @ ''.vtt''], generate_vtt (res_segments result))
      else None)"

text \<open>One iteration of the loop of lines 77 to 122; an exception in it is caught.\<close>

definition transcribe_step ::
  "trans_env \<Rightarrow> string \<Rightarrow> path \<Rightarrow> string \<Rightarrow> nat \<times> ('a, string) world \<Rightarrow> path \<Rightarrow> nat \<times> ('a, string) world" where
  "transcribe_step env language output_path output_format st audio_file =
     (let successful_transcriptions = fst st; w = snd st;
          opts = transcribe_options language;
          w1 = emit (Transcribe audio_file opts) w
      in case transcribe env audio_file opts of
           None \<Rightarrow> (successful_transcriptions, w1)
         | Some result \<Rightarrow>
             (case render env output_path (path_stem audio_file) output_format result of
                None \<Rightarrow> (successful_transcriptions, w1)
              | Some (output_file, content) \<Rightarrow>
                  let w2 = emit (WriteFile output_file) w1
                  in if write_ok env output_file
                     then (successful_transcriptions + 1, w2\<lparr>fs := (fs w2)(output_file \<mapsto> File content)\<rparr>)
                     else (successful_transcriptions, w2)))"

text \<open>Lines 28 to 51: the files to process and the default output directory.\<close>

definition resolve_audio_files :: "trans_env \<Rightarrow> path \<Rightarrow> ('a, string) world \<Rightarrow> (path list \<times> path) option" where
  "resolve_audio_files env input_path w =
     (if is_file (fs w input_path) then Some ([input_path], path_parent input_path @ [''transcripts''])
      else if is_dir (fs w input_path)
      then Some (concat (map (glob (scandir env input_path) input_path) audio_extensions),
                 input_path @ [''transcripts''])
      else None)"

definition transcribe_audio_files ::
  "trans_env \<Rightarrow> path \<Rightarrow> string \<Rightarrow> string \<Rightarrow> path option \<Rightarrow> string \<Rightarrow> ('a, string) world \<Rightarrow>
     bool \<times> ('a, string) world" where
  "transcribe_audio_files env input_path language model output_dir output_format w =
     (case resolve_audio_files env input_path w of
        None \<Rightarrow> (False, w)
      | Some (found, default_dir) \<Rightarrow>
          if found = [] then (False, w)
          else
            let audio_files = sort found;
                output_path = (case output_dir of None \<Rightarrow> default_dir | Some d \<Rightarrow> d)
            in case mkdir_parents (trans_mkdir_permitted env) output_path w of
                 (False, w1) \<Rightarrow> (False, w1)
               | (True, w1) \<Rightarrow>
                   let w2 = emit (LoadModel model) w1
                   in if \<not> load_model_ok env model then (False, w2)
                      else
                        let st = foldl (transcribe_step env language output_path output_format) (0, w2) audio_files
                        in (fst st = length audio_files, snd st))"

text \<open>The engine calls of a run, in order: the path and the keyword arguments of each.\<close>

definition transcriptions :: "'a event list \<Rightarrow> (path \<times> (string \<times> string) list) list" where
  "transcriptions es = concat (map (\<lambda>e. case e of Transcribe p opts \<Rightarrow> [(p, opts)] | _ \<Rightarrow> []) es)"

section \<open>Pipeline orchestrator (process\_media.py)\<close>

text \<open>The parsed command line (\<open>args.input_file\<close>, \<open>args.language\<close>, ...).\<close>

record args =
  arg_input_file :: path
  arg_language :: string
  arg_skip_video_conversion :: bool
  arg_skip_cutting :: bool
  arg_skip_transcription :: bool
  arg_duration :: int
  arg_model :: string
  arg_format :: string
  arg_output_dir :: "path option"
  arg_audio_format :: string
  arg_audio_quality :: string

text \<open>
  What the orchestrator cannot decide by itself: whether the system lets it create the
  output directory, the interpreter it runs the scripts with, and what running a script
  with its arguments does to the file system and how it ends.
\<close>

record 'c orch_env =
  orch_mkdir_permitted :: "path \<Rightarrow> bool"
  executable :: string
  run_python :: "string \<Rightarrow> string list \<Rightarrow> (path \<rightharpoonup> 'c node) \<Rightarrow> proc_outcome \<times> (path \<rightharpoonup> 'c node)"

text \<open>
  \<open>run_script\<close>: return code 0 gives \<open>True\<close>; another return code raises
  \<open>CalledProcessError\<close>, which is caught and gives \<open>False\<close>; any other exception
  is not caught.
\<close>

definition run_script ::
  "'c orch_env \<Rightarrow> string \<Rightarrow> string list \<Rightarrow> ('a, 'c) world \<Rightarrow> (py_error + bool) \<times> ('a, 'c) world" where
  "run_script env script_name script_args w =
     (let cmd = [executable env, script_name] @ script_args;
          r = run_python env script_name script_args (fs w);
          w1 = (emit (Subprocess cmd (fst r)) w)\<lparr>fs := snd r\<rparr>
      in case fst r of
           Exited returncode \<Rightarrow> (Inr (returncode = 0), w1)
         | NotFound \<Rightarrow> (Inl OSError, w1)
         | OtherError \<Rightarrow> (Inl OtherException, w1))"

definition video_args :: "args \<Rightarrow> path \<Rightarrow> string list" where
  "video_args a audio_file =
     [path_str (arg_input_file a), ''-o'', path_str audio_file, ''-f'', arg_audio_format a, ''-q'', arg_audio_quality a]"

definition cutting_args :: "args \<Rightarrow> path \<Rightarrow> path \<Rightarrow> string list" where
  "cutting_args a current_audio_file chunks_dir =
     [path_str current_audio_file, ''-d'', str_int (arg_duration a), ''-o'', path_str chunks_dir,
      ''-f'', arg_audio_format a]"

definition transcription_args :: "args \<Rightarrow> path \<Rightarrow> path \<Rightarrow> string list" where
  "transcription_args a transcription_input transcripts_dir =
     [path_str transcription_input, ''-l'', arg_language a, ''-m'', arg_model a,
      ''-o'', path_str transcripts_dir, ''-f'', arg_format a]"

text \<open>
  The end of the program is an exit code (\<open>sys.exit(1)\<close>, or 0 when \<open>main\<close> returns)
  or an exception nothing catches. A step of \<open>main\<close> either ends the program (\<open>Inl\<close>)
  or hands the location of its output to the next step (\<open>Inr\<close>).
\<close>

type_synonym ('a, 'c) ending = "(py_error + int) \<times> ('a, 'c) world"

text \<open>Lines 85 to 104.\<close>

definition step_convert ::
  "'c orch_env \<Rightarrow> args \<Rightarrow> path \<Rightarrow> ('a, 'c) world \<Rightarrow> ('a, 'c) ending + path \<times> ('a, 'c) world" where
  "step_convert env a out_dir w =
     (if \<not> arg_skip_video_conversion a
      then
        let audio_file = out_dir @ [path_stem (arg_input_file a) @ ''.'' @ arg_audio_format a]
        in case run_script env ''video_to_audio.py'' (video_args a audio_file) w of
             (Inl e, w1) \<Rightarrow> Inl (Inl e, w1)
           | (Inr ok, w1) \<Rightarrow> if \<not> ok then Inl (Inr 1, w1) else Inr (audio_file, w1)
      else Inr (arg_input_file a, w))"

text \<open>Lines 106 to 125.\<close>

definition step_cut ::
  "'c orch_env \<Rightarrow> args \<Rightarrow> path \<Rightarrow> path \<Rightarrow> ('a, 'c) world \<Rightarrow> ('a, 'c) ending + path \<times> ('a, 'c) world" where
  "step_cut env a out_dir current_audio_file w =
     (if \<not> arg_skip_cutting a
      then
        let chunks_dir = out_dir @ [path_stem (arg_input_file a) @ ''_chunks'']
        in case run_script env ''cut_audio.py'' (cutting_args a current_audio_file chunks_dir) w of
             (Inl e, w1) \<Rightarrow> Inl (Inl e, w1)
           | (Inr ok, w1) \<Rightarrow> if \<not> ok then Inl (Inr 1, w1) else Inr (chunks_dir, w1)
      else Inr (current_audio_file, w))"

text \<open>Lines 127 to 157; after them \<open>main\<close> returns and the exit code is 0.\<close>

definition step_transcribe ::
  "'c orch_env \<Rightarrow> args \<Rightarrow> path \<Rightarrow> path \<Rightarrow> ('a, 'c) world \<Rightarrow> ('a, 'c) ending" where
  "step_transcribe env a out_dir transcription_input w =
     (if \<not> arg_skip_transcription a
      then
        let transcripts_dir = out_dir @ [path_stem (arg_input_file a) @ ''_transcripts'']
        in case run_script env ''transcribe_audio.py''
                  (transcription_args a transcription_input transcripts_dir) w of
             (Inl e, w1) \<Rightarrow> (Inl e, w1)
           | (Inr ok, w1) \<Rightarrow> if \<not> ok then (Inr 1, w1) else (Inr 0, w1)
      else (Inr 0, w))"

text \<open>
  Lines 64 to 77: the input must exist; the output directory is created when one is
  given (an exception of \<open>mkdir\<close> is not caught), else it is the input's directory.
\<close>

definition resolve_output_dir :: "'c orch_env \<Rightarrow> args \<Rightarrow> ('a, 'c) world \<Rightarrow> ('a, 'c) ending + path \<times> ('a, 'c) world" where
  "resolve_output_dir env a w =
     (if \<not> path_exists w (arg_input_file a) then Inl (Inr 1, w)
      else case arg_output_dir a of
             Some d \<Rightarrow>
               (case mkdir_parents (orch_mkdir_permitted env) d w of
                  (False, w0) \<Rightarrow> Inl (Inl OSError, w0)
                | (True, w0) \<Rightarrow> Inr (d, w0))
           | None \<Rightarrow> Inr (path_parent (arg_input_file a), w))"

definition main :: "'c orch_env \<Rightarrow> args \<Rightarrow> ('a, 'c) world \<Rightarrow> ('a, 'c) ending" where
  "main env a w =
     (case resolve_output_dir env a w of
        Inl ending \<Rightarrow> ending
      | Inr (out_dir, w0) \<Rightarrow>
          (case step_convert env a out_dir w0 of
             Inl ending \<Rightarrow> ending
           | Inr (current_audio_file, w1) \<Rightarrow>
               (case step_cut env a out_dir current_audio_file w1 of
                  Inl ending \<Rightarrow> ending
                | Inr (transcription_input, w2) \<Rightarrow>
                    step_transcribe env a out_dir transcription_input w2)))"

text \<open>The scripts run, in order, each with how it ended; the events a run adds.\<close>

definition script_calls :: "'a event list \<Rightarrow> (string \<times> proc_outcome) list" where
  "script_calls es =
     concat (map (\<lambda>e. case e of Subprocess cmd oc \<Rightarrow> [(cmd ! 1, oc)] | _ \<Rightarrow> []) es)"

definition new_events :: "('a, 'c) world \<Rightarrow> ('a, 'c) world \<Rightarrow> 'a event list" where
  "new_events w w' = drop (length (events w)) (events w')"

text \<open>The stages \<open>main\<close> is asked to run, in pipeline order.\<close>

definition planned :: "args \<Rightarrow> string list" where
  "planned a =
     (if arg_skip_video_conversion a then [] else [''video_to_audio.py'']) @
     (if arg_skip_cutting a then [] else [''cut_audio.py'']) @
     (if arg_skip_transcription a then [] else [''transcribe_audio.py''])"

section \<open>Vocabulary of the proofs\<close>

text \<open>The characters a rendered time can hold.\<close>

definition time_char :: "char \<Rightarrow> bool" where
  "time_char c = (is_digit c \<or> c = CHR ''-'' \<or> c = CHR '':'' \<or> c = CHR ''.'')"

text \<open>The number a string of decimal digits denotes (the inverse of \<open>dec\<close>).\<close>

definition digit_val :: "char \<Rightarrow> nat" where
  "digit_val c = of_char c - 48"

definition str_val :: "string \<Rightarrow> nat" where
  "str_val s = foldl (\<lambda>a c. 10 * a + digit_val c) 0 s"

text \<open>The chunk the loop computes at index \<open>k\<close> (counted from 0), as lines 79 to 85 do.\<close>

definition nth_chunk :: "'a list \<Rightarrow> int \<Rightarrow> path \<Rightarrow> string \<Rightarrow> nat \<Rightarrow> 'a chunk" where
  "nth_chunk audio tms out fmt k =
     \<lparr>chunk_path = out @ [chunk_filename k fmt], start_ms = int k * tms,
      end_ms = min ((int k + 1) * tms) (int (length audio)),
      chunk_data = slice_ms audio (int k * tms) (min ((int k + 1) * tms) (int (length audio)))\<rparr>"

text \<open>A directory whose only entry has an upper-case extension, and an engine that always answers.\<close>

definition uppercase_dir_env :: trans_env where
  "uppercase_dir_env =
     \<lparr>scandir = (\<lambda>p. [''TALK.MP3'']), trans_mkdir_permitted = (\<lambda>p. True),
      load_model_ok = (\<lambda>m. True),
      transcribe = (\<lambda>p opts. Some \<lparr>res_text = ''hello'', res_segments = []\<rparr>),
      json_dumps = (\<lambda>r. ''{}''), write_ok = (\<lambda>p. True)\<rparr>"

definition uppercase_dir_world :: "(unit, string) world" where
  "uppercase_dir_world =
     \<lparr>fs = [[''talks''] \<mapsto> Dir, [''talks'', ''TALK.MP3''] \<mapsto> File ''audio''], events = []\<rparr>"

text \<open>A directory enumerated out of order, with one entry that is not audio.\<close>

definition mixed_dir_env :: trans_env where
  "mixed_dir_env =
     \<lparr>scandir = (\<lambda>p. [''b.wav'', ''notes.txt'', ''c.mp3'', ''a.mp3'']),
      trans_mkdir_permitted = (\<lambda>p. True), load_model_ok = (\<lambda>m. True),
      transcribe = (\<lambda>p opts. Some \<lparr>res_text = ''hello'', res_segments = []\<rparr>),
      json_dumps = (\<lambda>r. ''{}''), write_ok = (\<lambda>p. True)\<rparr>"

definition mixed_dir_world :: "(unit, string) world" where
  "mixed_dir_world = \<lparr>fs = [[''in''] \<mapsto> Dir], events = []\<rparr>"

text \<open>
  The world right after a script has run: its call and its outcome are in the log, the
  file system is as the script left it.
\<close>

definition after_script :: "'c orch_env \<Rightarrow> string \<Rightarrow> string list \<Rightarrow> ('a, 'c) world \<Rightarrow> ('a, 'c) world" where
  "after_script env script_name script_args w =
     (emit (Subprocess ([executable env, script_name] @ script_args)
              (fst (run_python env script_name script_args (fs w)))) w)
       \<lparr>fs := snd (run_python env script_name script_args (fs w))\<rparr>"

text \<open>The directories a list of events asks the system to create.\<close>

definition mkdirs :: "'a event list \<Rightarrow> path list" where
  "mkdirs es = concat (map (\<lambda>e. case e of Mkdir p \<Rightarrow> [p] | _ \<Rightarrow> []) es)"

text \<open>
  Fail-fast sequencing of a plan of stages, read off the scripts run and the way the
  program ended: the scripts run are an initial part of the plan, in its order; every
  script but the last one run succeeded; a script that did not succeed makes the ending
  a failure (exit code 1 when it returned a code); and the ending is exit code 0 only
  when the whole plan was run.
\<close>

definition fail_fast :: "string list \<Rightarrow> (string \<times> proc_outcome) list \<Rightarrow> py_error + int \<Rightarrow> bool" where
  "fail_fast plan calls res \<longleftrightarrow>
     prefix (map fst calls) plan \<and>
     (\<forall>c\<in>set (butlast calls). snd c = Exited 0) \<and>
     (\<forall>c\<in>set calls. snd c \<noteq> Exited 0 \<longrightarrow> res \<noteq> Inr 0) \<and>
     (\<forall>c\<in>set calls. \<forall>n. snd c = Exited n \<and> n \<noteq> 0 \<longrightarrow> res = Inr 1) \<and>
     (res = Inr 0 \<longrightarrow> map fst calls = plan)"

text \<open>A pipeline run on \<open>lecture.mp4\<close> in which the conversion script exits with code 1.\<close>

definition failing_convert_env :: "unit orch_env" where
  "failing_convert_env =
     \<lparr>orch_mkdir_permitted = (\<lambda>p. True), executable = ''python3'',
      run_python = (\<lambda>s xs f. if s = ''video_to_audio.py'' then (Exited 1, f) else (Exited 0, f))\<rparr>"

definition lecture_args :: args where
  "lecture_args =
     \<lparr>arg_input_file = [''lecture.mp4''], arg_language = ''en'', arg_skip_video_conversion = False,
      arg_skip_cutting = False, arg_skip_transcription = False, arg_duration = 10,
      arg_model = ''base'', arg_format = ''srt'', arg_output_dir = None,
      arg_audio_format = ''mp3'', arg_audio_quality = ''192k''\<rparr>"

definition lecture_world :: "(unit, unit) world" where
  "lecture_world = \<lparr>fs = [[''lecture.mp4''] \<mapsto> File ()], events = []\<rparr>"

section \<open>Time formatting\<close>

lemma is_digit_digit_char: "d < 10 \<Longrightarrow> is_digit (digit_char d)"
proof -
  assume "d < 10"
  then have "d \<in> {0,1,2,3,4,5,6,7,8,9}" by auto
  then show ?thesis by (auto simp: digit_char_def is_digit_def)
qed

lemma is_digit_zero: "is_digit CHR ''0''"
  by (simp add: is_digit_def)

lemma not_digit_seps: "\<not> is_digit CHR ''.''" "\<not> is_digit CHR '',''" "\<not> is_digit CHR '':''"
  "\<not> is_digit CHR ''-''" "\<not> is_digit (CHR 0x0A)"
  by (simp_all add: is_digit_def)

lemma all_digits_append: "all_digits (s @ r) = (all_digits s \<and> all_digits r)"
  by (simp add: all_digits_def)

lemma all_digits_dec: "all_digits (dec n)"
proof (induction n rule: dec.induct)
  case (1 n)
  show ?case
  proof (cases "n < 10")
    case True
    then show ?thesis using is_digit_digit_char [of n]
      by (subst dec.simps) (simp add: all_digits_def)
  next
    case False
    then show ?thesis using 1 is_digit_digit_char [of "n mod 10"]
      by (subst dec.simps) (simp add: all_digits_def)
  qed
qed

lemma length_dec_pos: "0 < length (dec n)"
  by (subst dec.simps) simp

lemma length_dec_10: "n < 10 \<Longrightarrow> length (dec n) = 1"
  by (subst dec.simps) simp

lemma length_dec_100: "n < 100 \<Longrightarrow> length (dec n) \<le> 2"
  by (subst dec.simps) (simp add: length_dec_10)

lemma length_dec_1000: "n < 1000 \<Longrightarrow> length (dec n) \<le> 3"
proof -
  assume "n < 1000"
  then have "n div 10 < 100" by simp
  then show ?thesis using length_dec_100 [of "n div 10"]
    by (subst dec.simps) simp
qed

lemma length_zfill: "length (zfill w s) = max w (length s)"
  by (simp add: zfill_def)

lemma all_digits_zfill: "all_digits s \<Longrightarrow> all_digits (zfill w s)"
  by (auto simp: zfill_def all_digits_def list_all_iff is_digit_zero)

lemma zfill_append: "length r = k \<Longrightarrow> zfill (w + k) (s @ r) = zfill w s @ r"
  by (simp add: zfill_def)

lemma replace_digits: "all_digits s \<Longrightarrow> str_replace_char CHR ''.'' c s = s"
  by (induction s) (auto simp: all_digits_def str_replace_char_def not_digit_seps)

lemma py_mod_bounds: "0 < y \<Longrightarrow> 0 \<le> py_mod x y \<and> py_mod x y < y"
proof -
  assume y: "0 < y"
  have a: "of_int \<lfloor>x / y\<rfloor> \<le> x / y" by simp
  have b: "x / y < of_int \<lfloor>x / y\<rfloor> + 1" by linarith
  have xy: "y * (x / y) = x" using y by simp
  from a y have "y * of_int \<lfloor>x / y\<rfloor> \<le> y * (x / y)"
    by (intro mult_left_mono) simp_all
  moreover from b y have "y * (x / y) < y * (of_int \<lfloor>x / y\<rfloor> + 1)"
    by (intro mult_strict_left_mono) simp_all
  ultimately show ?thesis unfolding xy by (simp add: py_mod_def algebra_simps)
qed

lemma py_int_floordiv: "py_int (py_floordiv x y) = \<lfloor>x / y\<rfloor>"
  by (simp add: py_int_def py_floordiv_def)

lemma round_half_even_bounds: "\<lfloor>q\<rfloor> \<le> round_half_even q \<and> round_half_even q \<le> \<lceil>q\<rceil>"
proof -
  have "q = of_int \<lfloor>q\<rfloor> \<or> \<lceil>q\<rceil> = \<lfloor>q\<rfloor> + 1"
    by (metis ceiling_altdef)
  moreover have "q = of_int \<lfloor>q\<rfloor> \<Longrightarrow> round_half_even q = \<lfloor>q\<rfloor>"
    by (simp add: round_half_even_def Let_def)
  moreover have "\<lfloor>q\<rfloor> \<le> \<lceil>q\<rceil>" by simp
  ultimately show ?thesis
    by (auto simp: round_half_even_def Let_def)
qed


lemma fmt_0d_nonneg: "0 \<le> n \<Longrightarrow> fmt_0d w n = zfill w (dec (nat n))"
  by (simp add: fmt_0d_def)

lemma fmt_0_3f_nonneg:
  "0 \<le> x \<Longrightarrow> fmt_0_3f 6 x =
     zfill 2 (dec (nat (round_half_even (x * 1000)) div 1000)) @ ''.'' @
     zfill 3 (dec (nat (round_half_even (x * 1000)) mod 1000))"
proof -
  assume x: "0 \<le> x"
  let ?ms = "nat (round_half_even (x * 1000))"
  have len: "length (''.'' @ zfill 3 (dec (?ms mod 1000))) = 4"
    using length_dec_1000 [of "?ms mod 1000"] by (simp add: length_zfill)
  have "zfill (2 + 4) (dec (?ms div 1000) @ (''.'' @ zfill 3 (dec (?ms mod 1000)))) =
        zfill 2 (dec (?ms div 1000)) @ (''.'' @ zfill 3 (dec (?ms mod 1000)))"
    by (rule zfill_append [OF len])
  then show ?thesis using x by (simp add: fmt_0_3f_def Let_def)
qed

lemma millis_bound: "0 \<le> s \<Longrightarrow> s < 60 \<Longrightarrow> 0 \<le> round_half_even (s * 1000) \<and> round_half_even (s * 1000) \<le> 60000"
proof -
  assume s: "0 \<le> s" "s < 60"
  have "0 \<le> \<lfloor>s * 1000\<rfloor>" using s by simp
  moreover have "\<lceil>s * 1000\<rceil> \<le> 60000" using s by (simp add: ceiling_le_iff)
  ultimately show ?thesis using round_half_even_bounds [of "s * 1000"] by linarith
qed

lemma minutes_bound: "0 \<le> \<lfloor>py_mod t 3600 / 60\<rfloor> \<and> \<lfloor>py_mod t 3600 / 60\<rfloor> < 60"
proof -
  have "0 \<le> py_mod t 3600 \<and> py_mod t 3600 < 3600" by (rule py_mod_bounds) simp
  then have "0 \<le> py_mod t 3600 / 60 \<and> py_mod t 3600 / 60 < 60" by simp
  then show ?thesis by (simp add: floor_less_iff)
qed

text \<open>
  Claim C4. For every non-negative segment time \<open>t\<close> (seconds), the SRT renderer writes
  \<open>HH:MM:SS,mmm\<close> and the VTT renderer \<open>HH:MM:SS.mmm\<close>: the hours are
  \<open>\<lfloor>t / 3600\<rfloor>\<close> and the minutes \<open>\<lfloor>(t mod 3600) / 60\<rfloor>\<close>, the remainder
  \<open>t mod 60\<close> is written with exactly three decimals (rounded to the nearest
  thousandth), the fields are digits only, zero-padded to 2/2/2/3 characters, the hours
  field growing beyond two digits when needed. In particular \<open>125.5\<close> renders as
  \<open>00:02:05,500\<close> and \<open>00:02:05.500\<close>.
\<close>

theorem format_time_shape:
  "0 \<le> t \<Longrightarrow>
     (let h = nat \<lfloor>t / 3600\<rfloor>;
          m = nat \<lfloor>py_mod t 3600 / 60\<rfloor>;
          ms = nat (round_half_even (py_mod t 60 * 1000));
          H = zfill 2 (dec h); M = zfill 2 (dec m);
          S = zfill 2 (dec (ms div 1000)); F = zfill 3 (dec (ms mod 1000))
      in format_time_srt t = H @ '':'' @ M @ '':'' @ S @ '','' @ F \<and>
         format_time_vtt t = H @ '':'' @ M @ '':'' @ S @ ''.'' @ F \<and>
         all_digits H \<and> all_digits M \<and> all_digits S \<and> all_digits F \<and>
         2 \<le> length H \<and> length M = 2 \<and> length S = 2 \<and> length F = 3 \<and>
         m < 60 \<and> ms \<le> 60000) \<and>
     format_time_srt (251 / 2) = ''00:02:05,500'' \<and>
     format_time_vtt (251 / 2) = ''00:02:05.500''"
proof -
  assume t: "0 \<le> t"
  define h where "h = nat \<lfloor>t / 3600\<rfloor>"
  define m where "m = nat \<lfloor>py_mod t 3600 / 60\<rfloor>"
  define ms where "ms = nat (round_half_even (py_mod t 60 * 1000))"
  define H where "H = zfill 2 (dec h)"
  define M where "M = zfill 2 (dec m)"
  define S where "S = zfill 2 (dec (ms div 1000))"
  define F where "F = zfill 3 (dec (ms mod 1000))"
  have h0: "0 \<le> \<lfloor>t / 3600\<rfloor>" using t by simp
  have m0: "0 \<le> \<lfloor>py_mod t 3600 / 60\<rfloor>"
    using minutes_bound [of t] by blast
  have m60: "m < 60"
    unfolding m_def using minutes_bound [of t] by linarith
  have s: "0 \<le> py_mod t 60 \<and> py_mod t 60 < 60" by (rule py_mod_bounds) simp
  then have msb: "ms \<le> 60000"
    unfolding ms_def using millis_bound [of "py_mod t 60"] by linarith
  have dH: "all_digits H" and dM: "all_digits M" and dS: "all_digits S" and dF: "all_digits F"
    by (simp_all add: H_def M_def S_def F_def all_digits_zfill all_digits_dec)
  have lH: "2 \<le> length H" by (simp add: H_def length_zfill)
  have lM: "length M = 2" using length_dec_100 [of m] m60 by (simp add: M_def length_zfill)
  have "ms div 1000 < 100" using msb by simp
  then have lS: "length S = 2" using length_dec_100 [of "ms div 1000"] by (simp add: S_def length_zfill)
  have lF: "length F = 3" using length_dec_1000 [of "ms mod 1000"] by (simp add: F_def length_zfill)
  have vtt: "format_time_vtt t = H @ '':'' @ M @ '':'' @ S @ ''.'' @ F"
    using h0 m0 s
    by (simp add: format_time_vtt_def Let_def py_int_floordiv fmt_0d_nonneg fmt_0_3f_nonneg
        H_def M_def S_def F_def h_def m_def ms_def)
  have "format_time_srt t = str_replace_char CHR ''.'' CHR '','' (format_time_vtt t)"
    by (simp add: format_time_srt_def format_time_vtt_def)
  also have "\<dots> = str_replace_char CHR ''.'' CHR '','' H @ '':'' @
      str_replace_char CHR ''.'' CHR '','' M @ '':'' @
      str_replace_char CHR ''.'' CHR '','' S @ '','' @ str_replace_char CHR ''.'' CHR '','' F"
    unfolding vtt by (simp add: str_replace_char_def)
  finally have srt: "format_time_srt t = H @ '':'' @ M @ '':'' @ S @ '','' @ F"
    using dH dM dS dF by (simp add: replace_digits)
  have ex1: "format_time_srt (251 / 2) = ''00:02:05,500''" by code_simp
  have ex2: "format_time_vtt (251 / 2) = ''00:02:05.500''" by code_simp
  show ?thesis
    unfolding Let_def
    using srt vtt dH dM dS dF lH lM lS lF m60 msb ex1 ex2
    unfolding H_def M_def S_def F_def h_def m_def ms_def
    by blast
qed

theorem format_time_shape_witness:
  "(0::rat) \<le> 3725 + 1 / 4 \<and> format_time_srt (3725 + 1 / 4) = ''01:02:05,250'' \<and>
   format_time_vtt (3725 + 1 / 4) = ''01:02:05.250''"
proof -
  have e1: "format_time_srt (3725 + 1 / 4) = ''01:02:05,250''" by code_simp
  have e2: "format_time_vtt (3725 + 1 / 4) = ''01:02:05.250''" by code_simp
  have h: "(0::rat) \<le> 3725 + 1 / 4" by simp
  from format_time_shape [OF h] e1 e2 h show ?thesis by simp
qed

section \<open>The two subtitle renderers emit the same blocks\<close>

lemma time_char_digits: "all_digits s \<Longrightarrow> list_all time_char s"
  by (simp add: all_digits_def time_char_def list_all_iff)

lemma time_char_fmt_0d: "list_all time_char (fmt_0d w n)"
  using time_char_digits [OF all_digits_zfill [OF all_digits_dec]]
  by (simp add: fmt_0d_def time_char_def)

lemma time_char_zfill: "list_all time_char s \<Longrightarrow> list_all time_char (zfill w s)"
  by (auto simp: zfill_def list_all_iff time_char_def is_digit_zero)

lemma time_char_fmt_0_3f: "list_all time_char (fmt_0_3f w x)"
proof -
  let ?ms = "nat (round_half_even (\<bar>x\<bar> * 1000))"
  let ?body = "dec (?ms div 1000) @ ''.'' @ zfill 3 (dec (?ms mod 1000))"
  have "list_all time_char (dec (?ms div 1000))"
    by (rule time_char_digits [OF all_digits_dec])
  moreover have "list_all time_char (zfill 3 (dec (?ms mod 1000)))"
    by (rule time_char_digits [OF all_digits_zfill [OF all_digits_dec]])
  ultimately have "list_all time_char ?body" by (simp add: time_char_def)
  then have z: "list_all time_char (zfill k ?body)" for k by (rule time_char_zfill)
  show ?thesis
  proof (cases "x < 0")
    case True
    then have "fmt_0_3f w x = ''-'' @ zfill (w - 1) ?body"
      by (simp only: fmt_0_3f_def Let_def if_True)
    then show ?thesis using z [of "w - 1"] by (simp add: time_char_def)
  next
    case False
    then have "fmt_0_3f w x = zfill w ?body"
      by (simp only: fmt_0_3f_def Let_def if_False)
    then show ?thesis using z [of w] by simp
  qed
qed

lemma time_char_format_time_vtt: "list_all time_char (format_time_vtt t)"
  by (simp add: format_time_vtt_def Let_def time_char_fmt_0d time_char_fmt_0_3f time_char_def)

lemma format_time_srt_vtt: "format_time_srt t = str_replace_char CHR ''.'' CHR '','' (format_time_vtt t)"
  by (simp add: format_time_srt_def format_time_vtt_def)

lemma replace_back:
  "list_all time_char s \<Longrightarrow>
     str_replace_char CHR '','' CHR ''.'' (str_replace_char CHR ''.'' CHR '','' s) = s"
  by (induction s) (auto simp: str_replace_char_def time_char_def not_digit_seps)

lemma nl_not_in_replaced:
  "list_all time_char s \<Longrightarrow> nl \<notin> set (str_replace_char CHR ''.'' CHR '','' s)"
  by (induction s) (auto simp: str_replace_char_def time_char_def not_digit_seps)

lemma nl_not_in_dec: "nl \<notin> set (dec i)"
  using all_digits_dec [of i] not_digit_seps(5) by (auto simp: all_digits_def list_all_iff)

lemma first_line_append: "nl \<notin> set s \<Longrightarrow> first_line (s @ nl # r) = s"
  by (auto simp: first_line_def takeWhile_tail)

lemma drop_length_append: "drop (length xs) (xs @ ys) = ys"
  by simp

lemma str_replace_char_append:
  "str_replace_char a b (s @ r) = str_replace_char a b s @ str_replace_char a b r"
  by (simp add: str_replace_char_def)

lemma block_without_number_srt_block: "block_without_number (srt_block i seg) = vtt_block seg"
proof -
  let ?a = "format_time_vtt (seg_start seg)" and ?b = "format_time_vtt (seg_end seg)"
  let ?ra = "str_replace_char CHR ''.'' CHR '','' ?a" and ?rb = "str_replace_char CHR ''.'' CHR '','' ?b"
  let ?line = "?ra @ '' --> '' @ ?rb"
  let ?tail = "str_strip (seg_text seg) @ [nl, nl]"
  have blk: "srt_block i seg = dec i @ nl # (?line @ nl # ?tail)"
    by (simp add: srt_block_def Let_def format_time_srt_vtt)
  have line_nl: "nl \<notin> set ?line"
    using nl_not_in_replaced [OF time_char_format_time_vtt [of "seg_start seg"]]
      nl_not_in_replaced [OF time_char_format_time_vtt [of "seg_end seg"]]
    by simp
  have rest: "drop_first_line (srt_block i seg) = ?line @ nl # ?tail"
    unfolding blk drop_first_line_def first_line_append [OF nl_not_in_dec] by simp
  have fl: "first_line (?line @ nl # ?tail) = ?line"
    by (rule first_line_append [OF line_nl])
  have periods: "str_replace_char CHR '','' CHR ''.'' ?line = ?a @ '' --> '' @ ?b"
    using replace_back [OF time_char_format_time_vtt [of "seg_start seg"]]
      replace_back [OF time_char_format_time_vtt [of "seg_end seg"]]
    by (simp add: str_replace_char_append) (simp add: str_replace_char_def)
  have dr: "drop (length ?line) (?line @ nl # ?tail) = nl # ?tail"
    by (rule drop_length_append)
  show ?thesis
    unfolding block_without_number_def Let_def rest fl periods dr
    by (simp add: vtt_block_def Let_def)
qed

lemma srt_loop_blocks:
  "srt_loop i segs acc = acc @ concat (map (\<lambda>(k, seg). srt_block k seg) (zip [i..<i + length segs] segs))"
proof (induction segs arbitrary: i acc)
  case Nil
  then show ?case by simp
next
  case (Cons seg segs)
  have "[i..<i + length (seg # segs)] = i # [Suc i..<Suc i + length segs]"
    by (subst upt_rec) simp
  then show ?case using Cons.IH [of "i + 1" "acc @ srt_block i seg"] by simp
qed

lemma vtt_loop_blocks: "vtt_loop segs acc = acc @ concat (map vtt_block segs)"
  by (induction segs arbitrary: acc) simp_all

lemma map_block_without_number:
  "map block_without_number (map (\<lambda>(k, seg). srt_block k seg) (zip ns segs)) = map vtt_block (map snd (zip ns segs))"
  by (simp add: block_without_number_srt_block split_def)

text \<open>
  Claim C10. For every segment sequence, the SRT output is the concatenation of its
  numbered blocks, and the VTT output is the header \<open>WEBVTT\<close> and an empty line followed
  by those same blocks, in the same order, each without its sequence-number line and with
  the commas of its time-range line turned into periods; the trimmed text is untouched.
\<close>

theorem generate_vtt_from_srt:
  "generate_srt segments = concat (srt_blocks segments) \<and>
   generate_vtt segments =
     ''WEBVTT'' @ [nl, nl] @ concat (map block_without_number (srt_blocks segments))"
proof -
  have srt: "generate_srt segments = concat (srt_blocks segments)"
    by (simp add: generate_srt_def srt_blocks_def srt_loop_blocks)
  have "map snd (zip [1..<Suc (length segments)] segments) = segments"
    by (rule map_snd_zip) (simp del: upt_Suc)
  then have "map block_without_number (srt_blocks segments) = map vtt_block segments"
    unfolding srt_blocks_def map_block_without_number by simp
  then show ?thesis using srt
    by (simp add: generate_vtt_def vtt_loop_blocks)
qed

theorem generate_vtt_from_srt_witness:
  "generate_srt [\<lparr>seg_start = 0, seg_end = 5 / 2, seg_text = '' Hi, all ''\<rparr>,
                 \<lparr>seg_start = 5 / 2, seg_end = 251 / 2, seg_text = ''ok''\<rparr>] =
     ''1'' @ [nl] @ ''00:00:00,000 --> 00:00:02,500'' @ [nl] @ ''Hi, all'' @ [nl, nl] @
     ''2'' @ [nl] @ ''00:00:02,500 --> 00:02:05,500'' @ [nl] @ ''ok'' @ [nl, nl] \<and>
   generate_vtt [\<lparr>seg_start = 0, seg_end = 5 / 2, seg_text = '' Hi, all ''\<rparr>,
                 \<lparr>seg_start = 5 / 2, seg_end = 251 / 2, seg_text = ''ok''\<rparr>] =
     ''WEBVTT'' @ [nl, nl] @
     ''00:00:00.000 --> 00:00:02.500'' @ [nl] @ ''Hi, all'' @ [nl, nl] @
     ''00:00:02.500 --> 00:02:05.500'' @ [nl] @ ''ok'' @ [nl, nl]"
proof -
  let ?segs = "[\<lparr>seg_start = 0, seg_end = 5 / 2, seg_text = '' Hi, all ''\<rparr>,
                \<lparr>seg_start = 5 / 2, seg_end = 251 / 2, seg_text = ''ok''\<rparr>]"
  have b: "srt_blocks ?segs =
     [''1'' @ [nl] @ ''00:00:00,000 --> 00:00:02,500'' @ [nl] @ ''Hi, all'' @ [nl, nl],
      ''2'' @ [nl] @ ''00:00:02,500 --> 00:02:05,500'' @ [nl] @ ''ok'' @ [nl, nl]]"
    by code_simp
  have w: "map block_without_number
     [''1'' @ [nl] @ ''00:00:00,000 --> 00:00:02,500'' @ [nl] @ ''Hi, all'' @ [nl, nl],
      ''2'' @ [nl] @ ''00:00:02,500 --> 00:02:05,500'' @ [nl] @ ''ok'' @ [nl, nl]] =
     [''00:00:00.000 --> 00:00:02.500'' @ [nl] @ ''Hi, all'' @ [nl, nl],
      ''00:00:02.500 --> 00:02:05.500'' @ [nl] @ ''ok'' @ [nl, nl]]"
    by code_simp
  show ?thesis using generate_vtt_from_srt [of ?segs] unfolding b w by simp
qed

section \<open>The chunker\<close>

lemma exports_append: "exports (xs @ ys) = exports xs @ exports ys"
  by (simp add: exports_def)

lemma exports_Export: "exports [Export c] = [c]"
  by (simp add: exports_def)

lemma cut_step_events:
  "events (snd (cut_step env audio tms (int (length audio)) out fmt st k)) =
     events (snd st) @ [Export (nth_chunk audio tms out fmt k)]"
  by (simp add: cut_step_def Let_def emit_def nth_chunk_def)

lemma cut_step_count:
  "fst (cut_step env audio tms d out fmt st k) = fst st + (if export_ok env k then 1 else 0)"
  by (simp add: cut_step_def Let_def)

lemma cut_step_fs:
  "fs (snd (cut_step env audio tms (int (length audio)) out fmt st k)) =
     (fs (snd st))(chunk_path (nth_chunk audio tms out fmt k) :=
        (if export_ok env k then Some (File (chunk_data (nth_chunk audio tms out fmt k)))
         else export_leftover env k (fs (snd st) (chunk_path (nth_chunk audio tms out fmt k)))))"
  by (simp add: cut_step_def Let_def emit_def nth_chunk_def)

lemma cut_loop_events:
  "events (snd (foldl (cut_step env audio tms (int (length audio)) out fmt) st [0..<n])) =
     events (snd st) @ map (\<lambda>k. Export (nth_chunk audio tms out fmt k)) [0..<n]"
  by (induction n) (simp_all add: cut_step_events)

lemma cut_loop_count:
  "fst (foldl (cut_step env audio tms d out fmt) st [0..<n]) =
     fst st + int (length (filter (export_ok env) [0..<n]))"
  by (induction n) (simp_all add: cut_step_count)

lemma exports_map_Export: "exports (map (\<lambda>k. Export (f k)) ks) = map f ks"
  by (induction ks) (simp_all add: exports_def)

lemma cut_loop_new_exports:
  "new_exports (snd st) (snd (foldl (cut_step env audio tms (int (length audio)) out fmt) st [0..<n])) =
     map (nth_chunk audio tms out fmt) [0..<n]"
  by (simp add: new_exports_def cut_loop_events exports_append exports_map_Export)


subsection \<open>Chunk names are pairwise different\<close>

lemma digit_val_digit_char: "d < 10 \<Longrightarrow> digit_val (digit_char d) = d"
proof -
  assume "d < 10"
  then have "d \<in> {0,1,2,3,4,5,6,7,8,9}" by auto
  then show ?thesis by (auto simp: digit_char_def digit_val_def)
qed

lemma str_val_snoc: "str_val (s @ [c]) = 10 * str_val s + digit_val c"
  by (simp add: str_val_def)

lemma str_val_dec: "str_val (dec n) = n"
proof (induction n rule: dec.induct)
  case (1 n)
  show ?case
  proof (cases "n < 10")
    case True
    then show ?thesis
      by (subst dec.simps) (simp add: str_val_def digit_val_digit_char)
  next
    case False
    then have "str_val (dec (n div 10)) = n div 10" using 1 by simp
    then show ?thesis using False
      by (subst dec.simps) (simp add: str_val_snoc digit_val_digit_char)
  qed
qed

lemma str_val_zeros: "foldl (\<lambda>a c. 10 * a + digit_val c) 0 (replicate k CHR ''0'') = 0"
  by (induction k) (simp_all add: digit_val_def)

lemma str_val_zfill: "str_val (zfill w s) = str_val s"
  by (simp add: str_val_def zfill_def str_val_zeros)

lemma chunk_filename_eq: "chunk_filename k fmt = ''part_'' @ zfill 3 (dec (Suc k)) @ ''.'' @ fmt"
proof -
  have "nat (int k + 1) = Suc k" by simp
  then show ?thesis by (simp add: chunk_filename_def fmt_0d_def)
qed

lemma chunk_filename_inj: "chunk_filename j fmt = chunk_filename k fmt \<Longrightarrow> j = k"
proof -
  assume "chunk_filename j fmt = chunk_filename k fmt"
  then have "zfill 3 (dec (Suc j)) = zfill 3 (dec (Suc k))"
    by (simp add: chunk_filename_eq)
  then have "str_val (zfill 3 (dec (Suc j))) = str_val (zfill 3 (dec (Suc k)))" by simp
  then show ?thesis by (simp add: str_val_zfill str_val_dec)
qed

subsection \<open>The number of chunks\<close>

lemma num_chunks_bounds:
  fixes d t :: int
  assumes "0 < d" "0 < t"
  shows "0 < \<lceil>rat_of_int d / rat_of_int t\<rceil>"
    and "(\<lceil>rat_of_int d / rat_of_int t\<rceil> - 1) * t < d"
    and "d \<le> \<lceil>rat_of_int d / rat_of_int t\<rceil> * t"
proof -
  let ?x = "rat_of_int d / rat_of_int t"
  let ?N = "\<lceil>?x\<rceil>"
  have tpos: "0 < rat_of_int t" using assms by simp
  have "0 < ?x" using assms by simp
  then show "0 < ?N" by (simp add: less_ceiling_iff)
  have "rat_of_int ?N - 1 < ?x" using ceiling_correct [of ?x] by blast
  then have "(rat_of_int ?N - 1) * rat_of_int t < rat_of_int d"
    using tpos by (simp add: pos_less_divide_eq)
  then have "rat_of_int ((?N - 1) * t) < rat_of_int d" by simp
  then show "(?N - 1) * t < d" by (simp only: of_int_less_iff)
  have "rat_of_int d \<le> rat_of_int ?N * rat_of_int t"
    by (rule iffD1 [OF pos_divide_le_eq [OF tpos] le_of_int_ceiling])
  then have "rat_of_int d \<le> rat_of_int (?N * t)" by simp
  then show "d \<le> ?N * t" by (simp only: of_int_le_iff)
qed

subsection \<open>Slices\<close>

lemma slice_ms_inside:
  "0 \<le> s \<Longrightarrow> s \<le> e \<Longrightarrow> e \<le> int (length audio) \<Longrightarrow>
     slice_ms audio s e = take (nat (e - s)) (drop (nat s) audio)"
  by (simp add: slice_ms_def Let_def min_def)

lemma concat_slices:
  fixes b :: "nat \<Rightarrow> nat"
  shows "b 0 = 0 \<Longrightarrow> (\<And>k. k < n \<Longrightarrow> b k \<le> b (Suc k)) \<Longrightarrow>
     concat (map (\<lambda>k. take (b (Suc k) - b k) (drop (b k) xs)) [0..<n]) = take (b n) xs"
proof (induction n)
  case 0
  then show ?case by simp
next
  case (Suc n)
  have "b n \<le> b (Suc n)" using Suc.prems(2) [of n] by simp
  then have "take (b (Suc n)) xs = take (b n) xs @ take (b (Suc n) - b n) (drop (b n) xs)"
    using take_add [of "b n" "b (Suc n) - b n" xs] by simp
  then show ?case using Suc by simp
qed


subsection \<open>The chunks of a run\<close>

lemma chunk_start_inside:
  fixes d t :: int
  assumes "0 < d" "0 < t" "k < nat \<lceil>rat_of_int d / rat_of_int t\<rceil>"
  shows "int k * t < d"
proof -
  have "int k \<le> \<lceil>rat_of_int d / rat_of_int t\<rceil> - 1" using assms(3) by linarith
  then have "int k * t \<le> (\<lceil>rat_of_int d / rat_of_int t\<rceil> - 1) * t"
    using assms(2) by (intro mult_right_mono) simp_all
  then show ?thesis using num_chunks_bounds(2) [OF assms(1,2)] by linarith
qed

lemma chunk_end_inner:
  fixes d t :: int
  assumes "0 < d" "0 < t" "Suc k < nat \<lceil>rat_of_int d / rat_of_int t\<rceil>"
  shows "(int k + 1) * t < d"
  using chunk_start_inside [OF assms] by (simp add: algebra_simps)

lemma chunk_end_last:
  fixes d t :: int
  assumes "0 < d" "0 < t" "Suc k = nat \<lceil>rat_of_int d / rat_of_int t\<rceil>"
  shows "d \<le> (int k + 1) * t"
proof -
  have "int k + 1 = \<lceil>rat_of_int d / rat_of_int t\<rceil>"
    using assms(3) num_chunks_bounds(1) [OF assms(1,2)] by linarith
  then show ?thesis using num_chunks_bounds(3) [OF assms(1,2)] by simp
qed

lemma nth_chunk_fields:
  "chunk_path (nth_chunk audio t out fmt k) = out @ [''part_'' @ zfill 3 (dec (k + 1)) @ ''.'' @ fmt]"
  "start_ms (nth_chunk audio t out fmt k) = int k * t"
  "end_ms (nth_chunk audio t out fmt k) = min ((int k + 1) * t) (int (length audio))"
  by (simp_all add: nth_chunk_def chunk_filename_eq)

lemma nth_chunk_data:
  assumes "0 < t" "int k * t < int (length audio)"
  shows "chunk_data (nth_chunk audio t out fmt k) =
     take (nat (min ((int k + 1) * t) (int (length audio)) - int k * t)) (drop (nat (int k * t)) audio)"
proof -
  have a: "0 \<le> int k * t" using assms(1) by simp
  have "int k * t \<le> (int k + 1) * t" using assms(1) by (simp add: algebra_simps)
  then have b: "int k * t \<le> min ((int k + 1) * t) (int (length audio))" using assms(2) by simp
  have c: "min ((int k + 1) * t) (int (length audio)) \<le> int (length audio)" by simp
  show ?thesis unfolding nth_chunk_def using slice_ms_inside [OF a b c] by simp
qed

lemma nth_chunk_nonempty:
  assumes "0 < t" "int k * t < int (length audio)"
  shows "start_ms (nth_chunk audio t out fmt k) < end_ms (nth_chunk audio t out fmt k)"
proof -
  have "int k * t < (int k + 1) * t" using assms(1) by (simp add: algebra_simps)
  then show ?thesis using assms(2) by (simp add: nth_chunk_fields)
qed

lemma concat_chunk_data:
  assumes "audio \<noteq> []" "0 < t"
  shows "concat (map (\<lambda>k. chunk_data (nth_chunk audio t out fmt k))
           [0..<nat \<lceil>rat_of_int (int (length audio)) / rat_of_int t\<rceil>]) = audio"
proof -
  let ?d = "int (length audio)"
  let ?n = "nat \<lceil>rat_of_int ?d / rat_of_int t\<rceil>"
  define b where "b k = nat (min (int k * t) ?d)" for k
  have d: "0 < ?d" using assms(1) by simp
  have b0: "b 0 = 0" by (simp add: b_def)
  have mono: "b k \<le> b (Suc k)" for k
  proof -
    have "int k * t \<le> int (Suc k) * t" using assms(2) by (simp add: algebra_simps)
    then show ?thesis unfolding b_def by (intro nat_mono) simp
  qed
  have piece: "chunk_data (nth_chunk audio t out fmt k) = take (b (Suc k) - b k) (drop (b k) audio)"
    if "k < ?n" for k
  proof -
    have lt: "int k * t < ?d" by (rule chunk_start_inside [OF d assms(2) that])
    have nn: "0 \<le> int k * t" using assms(2) by simp
    have bk: "b k = nat (int k * t)" using lt by (simp add: b_def)
    have bs: "b (Suc k) = nat (min ((int k + 1) * t) ?d)" by (simp add: b_def add.commute)
    have "nat (min ((int k + 1) * t) ?d - int k * t) = b (Suc k) - b k"
      unfolding bk bs using nn by (simp add: nat_diff_distrib')
    then show ?thesis using nth_chunk_data [OF assms(2) lt, of out fmt] bk by simp
  qed
  have eq: "map (\<lambda>k. chunk_data (nth_chunk audio t out fmt k)) [0..<?n] =
        map (\<lambda>k. take (b (Suc k) - b k) (drop (b k) audio)) [0..<?n]"
    by (rule map_cong) (simp_all add: piece)
  have "concat (map (\<lambda>k. chunk_data (nth_chunk audio t out fmt k)) [0..<?n]) = take (b ?n) audio"
    unfolding eq by (rule concat_slices [of b ?n audio, OF b0 mono])
  moreover have "b ?n = length audio"
  proof -
    have "0 < \<lceil>rat_of_int ?d / rat_of_int t\<rceil>" by (rule num_chunks_bounds(1) [OF d assms(2)])
    then have "int ?n = \<lceil>rat_of_int ?d / rat_of_int t\<rceil>" by simp
    then have "?d \<le> int ?n * t" using num_chunks_bounds(3) [OF d assms(2)] by simp
    then show ?thesis by (simp add: b_def)
  qed
  ultimately show ?thesis by simp
qed

lemma distinct_chunk_paths: "distinct (map (\<lambda>k. chunk_path (nth_chunk audio t out fmt k)) [0..<n])"
proof -
  have "inj_on (\<lambda>k. chunk_path (nth_chunk audio t out fmt k)) (set [0..<n])"
    by (rule inj_onI) (simp add: nth_chunk_def chunk_filename_inj)
  then show ?thesis by (simp add: distinct_map)
qed

lemma cut_chunks_run:
  assumes "t \<noteq> 0"
  shows "cut_chunks env audio t out fmt w =
     Inr ((int (length (filter (export_ok env) [0..<nat \<lceil>rat_of_int (int (length audio)) / rat_of_int (t * 60000)\<rceil>])),
           \<lceil>rat_of_int (int (length audio)) / rat_of_int (t * 60000)\<rceil>),
          snd (foldl (cut_step env audio (t * 60000) (int (length audio)) out fmt) (0, w)
                 [0..<nat \<lceil>rat_of_int (int (length audio)) / rat_of_int (t * 60000)\<rceil>]))"
proof -
  have e: "t * 60 * 1000 = t * 60000" by simp
  have ne: "t * 60000 \<noteq> 0" using assms by simp
  show ?thesis
    unfolding cut_chunks_def Let_def e cut_loop_count if_not_P [OF ne] by simp
qed

text \<open>
  Claim C1. For an audio stream of positive duration \<open>D\<close> milliseconds and a positive
  chunk duration of \<open>T\<close> minutes (\<open>T_ms = T * 60000\<close>), the chunker computes and
  hands to the exporter exactly \<open>N = \<lceil>D / T_ms\<rceil>\<close> chunks, named \<open>part_001\<close>,
  \<open>part_002\<close>, ... in order with no gap; chunk \<open>i\<close> (counted from 1) spans
  \<open>(i - 1) * T_ms\<close> to \<open>min (i * T_ms) D\<close> and is not empty; consecutive spans touch,
  the first starts at 0, the last ends at \<open>D\<close>, and the chunks' audio, concatenated,
  is the whole stream.
\<close>

theorem cut_chunks_partition:
  "audio \<noteq> [] \<Longrightarrow> 0 < T \<Longrightarrow>
     (case cut_chunks env audio T out fmt w of
        Inl e \<Rightarrow> False
      | Inr (r, w') \<Rightarrow>
          (let D = int (length audio); Tms = T * 60000; ch = new_exports w w'
           in snd r = \<lceil>rat_of_int D / rat_of_int Tms\<rceil> \<and>
              int (length ch) = snd r \<and> 0 < length ch \<and>
              (\<forall>k<length ch.
                 chunk_path (ch ! k) = out @ [''part_'' @ zfill 3 (dec (k + 1)) @ ''.'' @ fmt] \<and>
                 start_ms (ch ! k) = int k * Tms \<and>
                 end_ms (ch ! k) = min ((int k + 1) * Tms) D \<and>
                 start_ms (ch ! k) < end_ms (ch ! k) \<and>
                 chunk_data (ch ! k) =
                   take (nat (end_ms (ch ! k) - start_ms (ch ! k))) (drop (nat (start_ms (ch ! k))) audio)) \<and>
              (\<forall>k. Suc k < length ch \<longrightarrow> end_ms (ch ! k) = start_ms (ch ! Suc k)) \<and>
              start_ms (hd ch) = 0 \<and> end_ms (last ch) = D \<and>
              concat (map chunk_data ch) = audio \<and>
              distinct (map chunk_path ch)))"
proof -
  assume a: "audio \<noteq> []" and T: "0 < T"
  let ?D = "int (length audio)"
  let ?t = "T * 60000"
  let ?N = "\<lceil>rat_of_int ?D / rat_of_int ?t\<rceil>"
  let ?n = "nat ?N"
  let ?w' = "snd (foldl (cut_step env audio ?t ?D out fmt) (0, w) [0..<?n])"
  let ?ch = "map (nth_chunk audio ?t out fmt) [0..<?n]"
  have d: "0 < ?D" using a by simp
  have t: "0 < ?t" using T by simp
  have T0: "T \<noteq> 0" using T by simp
  have N: "0 < ?N" by (rule num_chunks_bounds(1) [OF d t])
  have run: "cut_chunks env audio T out fmt w =
      Inr ((int (length (filter (export_ok env) [0..<?n])), ?N), ?w')"
    by (rule cut_chunks_run [OF T0])
  have ch: "new_exports w ?w' = ?ch"
    using cut_loop_new_exports [of "(0, w)" env audio ?t out fmt ?n] by simp
  have len: "length ?ch = ?n" by simp
  have c1: "int (length ?ch) = ?N" using N by simp
  have c2: "0 < length ?ch" using N by simp
  have inside: "int k * ?t < ?D" if "k < length ?ch" for k
    using chunk_start_inside [OF d t, of k] that by simp
  have c3: "chunk_path (?ch ! k) = out @ [''part_'' @ zfill 3 (dec (k + 1)) @ ''.'' @ fmt] \<and>
            start_ms (?ch ! k) = int k * ?t \<and>
            end_ms (?ch ! k) = min ((int k + 1) * ?t) ?D \<and>
            start_ms (?ch ! k) < end_ms (?ch ! k) \<and>
            chunk_data (?ch ! k) =
              take (nat (end_ms (?ch ! k) - start_ms (?ch ! k))) (drop (nat (start_ms (?ch ! k))) audio)"
    if "k < length ?ch" for k
  proof -
    have nth: "?ch ! k = nth_chunk audio ?t out fmt k" using that by simp
    show ?thesis
      unfolding nth
      using nth_chunk_nonempty [OF t inside [OF that], of out fmt]
        nth_chunk_data [OF t inside [OF that], of out fmt]
      by (simp add: nth_chunk_fields)
  qed
  have c4: "end_ms (?ch ! k) = start_ms (?ch ! Suc k)" if "Suc k < length ?ch" for k
  proof -
    have k: "k < length ?ch" using that by simp
    have "(int k + 1) * ?t < ?D" using chunk_end_inner [OF d t, of k] that by simp
    then have "end_ms (nth_chunk audio ?t out fmt k) = (int k + 1) * ?t"
      by (simp add: nth_chunk_fields)
    moreover have "start_ms (nth_chunk audio ?t out fmt (Suc k)) = (int k + 1) * ?t"
      by (simp add: nth_chunk_fields add.commute)
    ultimately show ?thesis using that k by simp
  qed
  have c5: "start_ms (hd ?ch) = 0"
  proof -
    have "hd ?ch = ?ch ! 0" using c2 by (intro hd_conv_nth) auto
    also have "\<dots> = nth_chunk audio ?t out fmt 0" using c2 by simp
    finally show ?thesis by (simp add: nth_chunk_fields)
  qed
  have c6: "end_ms (last ?ch) = ?D"
  proof -
    have ne: "?ch \<noteq> []" using c2 by auto
    have s: "Suc (?n - 1) = ?n" using N by simp
    have "last ?ch = ?ch ! (?n - 1)" using last_conv_nth [OF ne] by simp
    also have "\<dots> = nth_chunk audio ?t out fmt (?n - 1)" using N by simp
    finally have "end_ms (last ?ch) = min ((int (?n - 1) + 1) * ?t) ?D"
      by (simp add: nth_chunk_fields)
    moreover have "?D \<le> (int (?n - 1) + 1) * ?t" by (rule chunk_end_last [OF d t s])
    ultimately show ?thesis by simp
  qed
  have c7: "concat (map chunk_data ?ch) = audio"
    using concat_chunk_data [OF a t, of out fmt] by (simp add: comp_def)
  have c8: "distinct (map chunk_path ?ch)"
    using distinct_chunk_paths [of audio ?t out fmt ?n] by (simp add: comp_def)
  show ?thesis
    unfolding run sum.case prod.case Let_def snd_conv ch
    using c1 c2 c3 c4 c5 c6 c7 c8 by blast
qed

theorem cut_chunks_partition_witness:
  "replicate 130000 () \<noteq> [] \<and> (0::int) < 1 \<and>
   (case cut_chunks \<lparr>mkdir_permitted = (\<lambda>p. True), load_audio = (\<lambda>p. None),
                     export_ok = (\<lambda>i. True), export_leftover = (\<lambda>i n. n)\<rparr>
           (replicate 130000 ()) 1 [''out''] ''mp3'' \<lparr>fs = Map.empty, events = []\<rparr> of
      Inl e \<Rightarrow> False
    | Inr (r, w') \<Rightarrow>
        snd r = 3 \<and> length (new_exports \<lparr>fs = Map.empty, events = []\<rparr> w') = 3 \<and>
        chunk_path (new_exports \<lparr>fs = Map.empty, events = []\<rparr> w' ! 0) = [''out'', ''part_001.mp3''] \<and>
        start_ms (new_exports \<lparr>fs = Map.empty, events = []\<rparr> w' ! 2) = 120000 \<and>
        end_ms (new_exports \<lparr>fs = Map.empty, events = []\<rparr> w' ! 2) = 130000 \<and>
        end_ms (last (new_exports \<lparr>fs = Map.empty, events = []\<rparr> w')) = 130000 \<and>
        concat (map chunk_data (new_exports \<lparr>fs = Map.empty, events = []\<rparr> w')) = replicate 130000 ())"
proof -
  let ?env = "\<lparr>mkdir_permitted = (\<lambda>p. True), load_audio = (\<lambda>p. None),
                export_ok = (\<lambda>i. True), export_leftover = (\<lambda>i n. n)\<rparr> :: unit cut_env"
  let ?w = "\<lparr>fs = Map.empty, events = []\<rparr> :: (unit, unit list) world"
  let ?audio = "replicate 130000 ()"
  let ?run = "cut_chunks ?env ?audio 1 [''out''] ''mp3'' ?w"
  have h1: "?audio \<noteq> []" by simp
  have h2: "(0::int) < 1" by simp
  have name: "''part_'' @ zfill 3 (dec (0 + 1)) @ ''.'' @ ''mp3'' = ''part_001.mp3''" by code_simp
  have n3: "\<lceil>rat_of_int (int (length ?audio)) / rat_of_int (1 * 60000)\<rceil> = 3"
    by (simp add: ceiling_eq_iff)
  from cut_chunks_partition [where audio = ?audio and T = 1 and env = ?env and out = "[''out'']"
      and fmt = "''mp3''" and w = ?w, OF h1 h2]
  obtain r w' where run: "?run = Inr (r, w')"
    and r: "snd r = 3"
    and len: "int (length (new_exports ?w w')) = snd r"
    and each: "\<And>k. k < length (new_exports ?w w') \<Longrightarrow>
        chunk_path (new_exports ?w w' ! k) = [''out''] @ [''part_'' @ zfill 3 (dec (k + 1)) @ ''.'' @ ''mp3''] \<and>
        start_ms (new_exports ?w w' ! k) = int k * (1 * 60000) \<and>
        end_ms (new_exports ?w w' ! k) = min ((int k + 1) * (1 * 60000)) (int (length ?audio))"
    and lst: "end_ms (last (new_exports ?w w')) = int (length ?audio)"
    and cat: "concat (map chunk_data (new_exports ?w w')) = ?audio"
    unfolding n3 [symmetric] by (cases ?run) (auto simp only: sum.case prod.case Let_def)
  have l3: "length (new_exports ?w w') = 3" using len r by simp
  have k0: "(0::nat) < length (new_exports ?w w')" and k2: "(2::nat) < length (new_exports ?w w')"
    using l3 by simp_all
  show ?thesis
    unfolding run sum.case prod.case
    using h1 r l3 each [OF k0] each [OF k2] lst cat name by simp
qed

subsection \<open>Files written by the loop\<close>

lemma cut_loop_fs_other:
  "(\<And>k. k < n \<Longrightarrow> p \<noteq> chunk_path (nth_chunk audio t out fmt k)) \<Longrightarrow>
     fs (snd (foldl (cut_step env audio t (int (length audio)) out fmt) st [0..<n])) p = fs (snd st) p"
  by (induction n) (simp_all add: cut_step_fs)

lemma chunk_path_inj:
  "chunk_path (nth_chunk audio t out fmt j) = chunk_path (nth_chunk audio t out fmt k) \<Longrightarrow> j = k"
  by (simp add: nth_chunk_def chunk_filename_inj)

lemma cut_loop_fs_written:
  "k < n \<Longrightarrow> export_ok env k \<Longrightarrow>
     fs (snd (foldl (cut_step env audio t (int (length audio)) out fmt) st [0..<n]))
        (chunk_path (nth_chunk audio t out fmt k)) =
     Some (File (chunk_data (nth_chunk audio t out fmt k)))"
proof (induction n)
  case 0
  then show ?case by simp
next
  case (Suc n)
  show ?case
  proof (cases "k = n")
    case True
    then show ?thesis using Suc.prems(2) by (simp add: cut_step_fs)
  next
    case False
    then have kn: "k < n" using Suc.prems(1) by simp
    have "chunk_path (nth_chunk audio t out fmt n) \<noteq> chunk_path (nth_chunk audio t out fmt k)"
      using False chunk_path_inj [of audio t out fmt n k] by blast
    then show ?thesis using Suc.IH [OF kn Suc.prems(2)] by (simp add: cut_step_fs)
  qed
qed

text \<open>
  Claim C3. A failed export does not stop the loop: whatever exports fail, the chunker
  hands all \<open>num_chunks\<close> chunks to the exporter in order, counts the exports that
  succeeded, and succeeds exactly when that count equals \<open>num_chunks\<close>; the file of
  every chunk whose export succeeded is on disk afterwards with that chunk's audio,
  whatever the verdict, and no path other than the chunks' own is touched.
\<close>

theorem cut_chunks_partial_failure:
  "T \<noteq> 0 \<Longrightarrow>
     (case cut_chunks env audio T out fmt w of
        Inl e \<Rightarrow> False
      | Inr (r, w') \<Rightarrow>
          (let N = nat (snd r); ch = new_exports w w'; good = filter (export_ok env) [0..<N]
           in snd r = \<lceil>rat_of_int (int (length audio)) / rat_of_int (T * 60000)\<rceil> \<and>
              length ch = N \<and>
              map chunk_path ch = map (\<lambda>k. out @ [chunk_filename k fmt]) [0..<N] \<and>
              fst r = int (length good) \<and>
              (cut_verdict r \<longleftrightarrow> int (length good) = snd r) \<and>
              (\<forall>k<N. export_ok env k \<longrightarrow> fs w' (chunk_path (ch ! k)) = Some (File (chunk_data (ch ! k)))) \<and>
              (\<forall>p. p \<notin> set (map chunk_path ch) \<longrightarrow> fs w' p = fs w p)))"
proof -
  assume T0: "T \<noteq> 0"
  let ?D = "int (length audio)"
  let ?t = "T * 60000"
  let ?N = "\<lceil>rat_of_int ?D / rat_of_int ?t\<rceil>"
  let ?n = "nat ?N"
  let ?w' = "snd (foldl (cut_step env audio ?t ?D out fmt) (0, w) [0..<?n])"
  let ?ch = "map (nth_chunk audio ?t out fmt) [0..<?n]"
  let ?good = "filter (export_ok env) [0..<?n]"
  have run: "cut_chunks env audio T out fmt w = Inr ((int (length ?good), ?N), ?w')"
    by (rule cut_chunks_run [OF T0])
  have ch: "new_exports w ?w' = ?ch"
    using cut_loop_new_exports [of "(0, w)" env audio ?t out fmt ?n] by simp
  have c1: "length ?ch = ?n" by simp
  have c2: "map chunk_path ?ch = map (\<lambda>k. out @ [chunk_filename k fmt]) [0..<?n]"
    by (simp add: nth_chunk_def)
  have c3: "cut_verdict (int (length ?good), ?N) \<longleftrightarrow> int (length ?good) = ?N"
    by (simp add: cut_verdict_def)
  have c4: "fs ?w' (chunk_path (?ch ! k)) = Some (File (chunk_data (?ch ! k)))"
    if "k < ?n" "export_ok env k" for k
    using cut_loop_fs_written [OF that, of audio ?t out fmt "(0, w)"] that(1) by simp
  have c5: "fs ?w' p = fs w p" if "p \<notin> set (map chunk_path ?ch)" for p
  proof -
    have "p \<noteq> chunk_path (nth_chunk audio ?t out fmt k)" if "k < ?n" for k
      using \<open>p \<notin> set (map chunk_path ?ch)\<close> that by auto
    then show ?thesis
      using cut_loop_fs_other [of ?n p audio ?t out fmt env "(0, w)"] by simp
  qed
  show ?thesis
    unfolding run sum.case prod.case Let_def snd_conv fst_conv ch
    using c1 c2 c3 c4 c5 by blast
qed

theorem cut_chunks_partial_failure_witness:
  "(1::int) \<noteq> 0 \<and>
   (case cut_chunks \<lparr>mkdir_permitted = (\<lambda>p. True), load_audio = (\<lambda>p. None),
                     export_ok = (\<lambda>i. i = 0 \<or> i = 3), export_leftover = (\<lambda>i n. None)\<rparr>
           (replicate 250000 ()) 1 [''out''] ''mp3'' \<lparr>fs = Map.empty, events = []\<rparr> of
      Inl e \<Rightarrow> False
    | Inr (r, w') \<Rightarrow>
        r = (2, 5) \<and> \<not> cut_verdict r \<and>
        length (new_exports \<lparr>fs = Map.empty, events = []\<rparr> w') = 5 \<and>
        fs w' [''out'', ''part_001.mp3''] =
          Some (File (chunk_data (new_exports \<lparr>fs = Map.empty, events = []\<rparr> w' ! 0))) \<and>
        fs w' [''out'', ''part_004.mp3''] =
          Some (File (chunk_data (new_exports \<lparr>fs = Map.empty, events = []\<rparr> w' ! 3))))"
proof -
  let ?env = "\<lparr>mkdir_permitted = (\<lambda>p. True), load_audio = (\<lambda>p. None),
                export_ok = (\<lambda>i. i = 0 \<or> i = 3), export_leftover = (\<lambda>i n. None)\<rparr> :: unit cut_env"
  let ?w = "\<lparr>fs = Map.empty, events = []\<rparr> :: (unit, unit list) world"
  let ?audio = "replicate 250000 ()"
  let ?run = "cut_chunks ?env ?audio 1 [''out''] ''mp3'' ?w"
  have h: "(1::int) \<noteq> 0" by simp
  have n5: "\<lceil>rat_of_int (int (length ?audio)) / rat_of_int (1 * 60000)\<rceil> = 5"
    by (simp add: ceiling_eq_iff)
  have good: "filter (\<lambda>i. i = 0 \<or> i = 3) [0..<5] = [0, 3::nat]" by code_simp
  have names: "map (\<lambda>k. [''out''] @ [chunk_filename k ''mp3'']) [0..<5] =
      [[''out'', ''part_001.mp3''], [''out'', ''part_002.mp3''], [''out'', ''part_003.mp3''],
       [''out'', ''part_004.mp3''], [''out'', ''part_005.mp3'']]" by code_simp
  have all: "case ?run of Inl e \<Rightarrow> False | Inr (r, w') \<Rightarrow>
      (let N = nat (snd r); ch = new_exports ?w w'; good = filter (export_ok ?env) [0..<N]
       in snd r = \<lceil>rat_of_int (int (length ?audio)) / rat_of_int (1 * 60000)\<rceil> \<and>
          length ch = N \<and>
          map chunk_path ch = map (\<lambda>k. [''out''] @ [chunk_filename k ''mp3'']) [0..<N] \<and>
          fst r = int (length good) \<and>
          (cut_verdict r \<longleftrightarrow> int (length good) = snd r) \<and>
          (\<forall>k<N. export_ok ?env k \<longrightarrow> fs w' (chunk_path (ch ! k)) = Some (File (chunk_data (ch ! k)))) \<and>
          (\<forall>p. p \<notin> set (map chunk_path ch) \<longrightarrow> fs w' p = fs ?w p))"
    by (rule cut_chunks_partial_failure [where audio = ?audio and T = 1 and env = ?env
          and out = "[''out'']" and fmt = "''mp3''" and w = ?w, OF h])
  then obtain r w' where run: "?run = Inr (r, w')"
    by (cases ?run) auto
  note facts = all [unfolded run sum.case prod.case Let_def]
  have r2: "snd r = 5" using facts n5 by simp
  have len: "length (new_exports ?w w') = nat (snd r)" using facts by blast
  have paths: "map chunk_path (new_exports ?w w') =
        map (\<lambda>k. [''out''] @ [chunk_filename k ''mp3'']) [0..<nat (snd r)]"
    using facts by blast
  have r1: "fst r = int (length (filter (export_ok ?env) [0..<nat (snd r)]))"
    using facts by blast
  have files: "fs w' (chunk_path (new_exports ?w w' ! k)) = Some (File (chunk_data (new_exports ?w w' ! k)))"
    if "k < nat (snd r)" "export_ok ?env k" for k
    using facts that by blast
  have n: "nat (snd r) = 5" using r2 by simp
  have l5: "length (new_exports ?w w') = 5" using len n by simp
  have p: "map chunk_path (new_exports ?w w') =
      [[''out'', ''part_001.mp3''], [''out'', ''part_002.mp3''], [''out'', ''part_003.mp3''],
       [''out'', ''part_004.mp3''], [''out'', ''part_005.mp3'']]"
    using paths unfolding n names .
  have p0: "chunk_path (new_exports ?w w' ! 0) = [''out'', ''part_001.mp3'']"
    using nth_map [of 0 "new_exports ?w w'" chunk_path] l5 unfolding p by simp
  have p3: "chunk_path (new_exports ?w w' ! 3) = [''out'', ''part_004.mp3'']"
    using nth_map [of 3 "new_exports ?w w'" chunk_path] l5 unfolding p by simp
  have cnt: "fst r = 2" using r1 unfolding n by (simp add: good)
  have f0: "fs w' [''out'', ''part_001.mp3''] = Some (File (chunk_data (new_exports ?w w' ! 0)))"
    using files [of 0] n p0 by simp
  have f3: "fs w' [''out'', ''part_004.mp3''] = Some (File (chunk_data (new_exports ?w w' ! 3)))"
    using files [of 3] n p3 by simp
  have req: "r = (2, 5)" using cnt r2 by (cases r) simp
  have nv: "\<not> cut_verdict r" using req by (simp add: cut_verdict_def)
  show ?thesis
    unfolding run sum.case prod.case
    using h req nv l5 f0 f3 by blast
qed

subsection \<open>An empty audio stream\<close>

lemma mkdir_parents_events: "events (snd (mkdir_parents permitted p w)) = events w @ [Mkdir p]"
  by (simp add: mkdir_parents_def Let_def emit_def)

lemma cut_chunks_empty: "T \<noteq> 0 \<Longrightarrow> cut_chunks env [] T out fmt w = Inr ((0, 0), w)"
  by (simp add: cut_chunks_def Let_def)

text \<open>
  Claim C2 says that an audio stream of duration 0 makes the chunker report failure. The
  code does not: with no millisecond of audio \<open>num_chunks\<close> is 0, the loop body never
  runs, \<open>successful_chunks == num_chunks\<close> holds as \<open>0 == 0\<close> and the function
  returns \<open>True\<close>, having exported nothing.
\<close>

theorem cut_audio_file_empty_audio:
  "path_exists w input_path \<Longrightarrow> T \<noteq> 0 \<Longrightarrow> load_audio env input_path = Some [] \<Longrightarrow>
   fst (mkdir_parents (mkdir_permitted env)
          (case output_dir of None \<Rightarrow> [path_stem input_path @ ''_chunks''] | Some d \<Rightarrow> d) w) \<Longrightarrow>
     fst (cut_audio_file env input_path T output_dir fmt w) = Inr True \<and>
     new_exports w (snd (cut_audio_file env input_path T output_dir fmt w)) = []"
proof -
  assume ex: "path_exists w input_path" and T: "T \<noteq> 0"
    and load: "load_audio env input_path = Some []"
    and mk: "fst (mkdir_parents (mkdir_permitted env)
          (case output_dir of None \<Rightarrow> [path_stem input_path @ ''_chunks''] | Some d \<Rightarrow> d) w)"
  let ?out = "case output_dir of None \<Rightarrow> [path_stem input_path @ ''_chunks''] | Some d \<Rightarrow> d"
  obtain w1 where w1: "mkdir_parents (mkdir_permitted env) ?out w = (True, w1)"
    using mk by (cases "mkdir_parents (mkdir_permitted env) ?out w") simp
  have ev: "events w1 = events w @ [Mkdir ?out]"
    using mkdir_parents_events [of "mkdir_permitted env" ?out w] w1 by simp
  have res: "cut_audio_file env input_path T output_dir fmt w =
      (Inr True, emit (LoadAudio input_path) w1)"
    using ex load w1
    by (simp add: cut_audio_file_def Let_def cut_verdict_def cut_chunks_empty [OF T])
  have "exports (events (emit (LoadAudio input_path) w1)) = exports (events w)"
    by (simp add: emit_def ev exports_def)
  then show ?thesis unfolding res by (simp add: new_exports_def)
qed

theorem cut_audio_file_empty_audio_witness:
  "fst (cut_audio_file
         \<lparr>mkdir_permitted = (\<lambda>p. True), load_audio = (\<lambda>p. Some ([]::unit list)),
          export_ok = (\<lambda>i. True), export_leftover = (\<lambda>i n. n)\<rparr>
         [''silence.wav''] 10 None ''mp3''
         \<lparr>fs = [[''silence.wav''] \<mapsto> File []], events = []\<rparr>) = Inr True"
proof -
  let ?env = "\<lparr>mkdir_permitted = (\<lambda>p. True), load_audio = (\<lambda>p. Some ([]::unit list)),
          export_ok = (\<lambda>i. True), export_leftover = (\<lambda>i n. n)\<rparr>"
  let ?w = "\<lparr>fs = [[''silence.wav''] \<mapsto> File []], events = []\<rparr> :: (unit, unit list) world"
  have h1: "path_exists ?w [''silence.wav'']" by (simp add: path_exists_def)
  have h2: "(10::int) \<noteq> 0" by simp
  have h3: "load_audio ?env [''silence.wav''] = Some []" by simp
  have stem: "path_stem [''silence.wav''] = ''silence''" by code_simp
  have h4: "fst (mkdir_parents (mkdir_permitted ?env)
          (case None of None \<Rightarrow> [path_stem [''silence.wav''] @ ''_chunks''] | Some d \<Rightarrow> d) ?w)"
    by (simp add: stem mkdir_parents_def Let_def emit_def is_file_def)
  from cut_audio_file_empty_audio [OF h1 h2 h3 h4, of "''mp3''"] show ?thesis by blast
qed

section \<open>The converter\<close>

lemma new_events_emit: "new_events w (emit e w) = [e]"
  by (simp add: new_events_def emit_def)

lemma new_events_self: "new_events w w = []"
  by (simp add: new_events_def)

lemma run_ffmpeg_events:
  "events (snd (run_ffmpeg env input_path output_path audio_format quality w)) =
     events w @ [Subprocess (ffmpeg_cmd input_path output_path audio_format quality)
                   (fst (ffmpeg env (ffmpeg_cmd input_path output_path audio_format quality) (fs w)))]"
  by (simp add: run_ffmpeg_def Let_def emit_def split: proc_outcome.splits)

lemma emit_fs: "fs (emit e w) = fs w"
  by (simp add: emit_def)

lemma emit_events: "events (emit e w) = events w @ [e]"
  by (simp add: emit_def)

text \<open>
  Claim C7. Whenever the converter's output file already exists, the user is asked before
  anything is converted: the prompt is the first thing that happens. FFmpeg runs, after
  the prompt, only when the answer is \<open>y\<close> or \<open>Y\<close>. On any other answer the
  converter returns \<open>False\<close> (a cancellation, no exception), FFmpeg is not run and the
  file system is as it was. The converter has no forced or non-interactive mode, so the
  exception the claim allows never applies.
\<close>

theorem convert_confirms_overwrite:
  "path_exists w input_path \<Longrightarrow>
   path_exists w (case output_file of None \<Rightarrow> [path_stem input_path @ ''.'' @ audio_format] | Some f \<Rightarrow> f) \<Longrightarrow>
     (let output_path = (case output_file of None \<Rightarrow> [path_stem input_path @ ''.'' @ audio_format] | Some f \<Rightarrow> f);
          r = convert_video_to_audio env input_path output_file audio_format quality w;
          ev = new_events w (snd r);
          cmd = ffmpeg_cmd input_path output_path audio_format quality
      in hd ev = Input \<and> ev \<noteq> [] \<and>
         (case user_input env of
            None \<Rightarrow> r = (Inl EOFError, emit Input w)
          | Some response \<Rightarrow>
              if str_lower response \<noteq> ''y''
              then r = (Inr False, emit Input w) \<and> fs (snd r) = fs w \<and> ev = [Input]
              else ev = [Input, Subprocess cmd (fst (ffmpeg env cmd (fs w)))] \<and>
                   fst r = Inr (fst (ffmpeg env cmd (fs w)) = Exited 0)))"
proof -
  assume ex: "path_exists w input_path"
    and out: "path_exists w (case output_file of None \<Rightarrow> [path_stem input_path @ ''.'' @ audio_format] | Some f \<Rightarrow> f)"
  let ?out = "case output_file of None \<Rightarrow> [path_stem input_path @ ''.'' @ audio_format] | Some f \<Rightarrow> f"
  let ?r = "convert_video_to_audio env input_path output_file audio_format quality w"
  let ?cmd = "ffmpeg_cmd input_path ?out audio_format quality"
  let ?w1 = "emit Input w"
  show ?thesis
  proof (cases "user_input env")
    case None
    then have r: "?r = (Inl EOFError, ?w1)"
      using ex out by (simp add: convert_video_to_audio_def Let_def)
    show ?thesis unfolding Let_def r using None by (simp add: new_events_emit)
  next
    case (Some response)
    show ?thesis
    proof (cases "str_lower response \<noteq> ''y''")
      case True
      then have r: "?r = (Inr False, ?w1)"
        using ex out Some by (simp add: convert_video_to_audio_def Let_def)
      show ?thesis unfolding Let_def r using Some True
        by (simp add: new_events_emit emit_fs)
    next
      case False
      then have r: "?r = run_ffmpeg env input_path ?out audio_format quality ?w1"
        using ex out Some by (simp add: convert_video_to_audio_def Let_def)
      have ev: "new_events w (snd ?r) = [Input, Subprocess ?cmd (fst (ffmpeg env ?cmd (fs w)))]"
        unfolding r by (simp add: new_events_def run_ffmpeg_events emit_events emit_fs)
      have res: "fst ?r = Inr (fst (ffmpeg env ?cmd (fs w)) = Exited 0)"
        unfolding r by (simp add: run_ffmpeg_def Let_def emit_fs split: proc_outcome.splits)
      show ?thesis unfolding Let_def ev res using Some False by simp
    qed
  qed
qed

theorem convert_confirms_overwrite_witness:
  "fst (convert_video_to_audio
          \<lparr>user_input = Some ''n'', ffmpeg = (\<lambda>cmd f. (Exited 0, f))\<rparr>
          [''lecture.mp4''] None ''mp3'' ''192k''
          \<lparr>fs = [[''lecture.mp4''] \<mapsto> File (1::nat), [''lecture.mp3''] \<mapsto> File 2], events = ([] :: unit event list)\<rparr>) = Inr False \<and>
   fs (snd (convert_video_to_audio
          \<lparr>user_input = Some ''n'', ffmpeg = (\<lambda>cmd f. (Exited 0, f))\<rparr>
          [''lecture.mp4''] None ''mp3'' ''192k''
          \<lparr>fs = [[''lecture.mp4''] \<mapsto> File (1::nat), [''lecture.mp3''] \<mapsto> File 2], events = ([] :: unit event list)\<rparr>))
      [''lecture.mp3''] = Some (File 2)"
proof -
  let ?env = "\<lparr>user_input = Some ''n'', ffmpeg = (\<lambda>cmd f. (Exited 0, f))\<rparr> :: nat conv_env"
  let ?w = "\<lparr>fs = [[''lecture.mp4''] \<mapsto> File (1::nat), [''lecture.mp3''] \<mapsto> File 2], events = ([] :: unit event list)\<rparr>"
  have stem: "path_stem [''lecture.mp4''] = ''lecture''" by code_simp
  have h1: "path_exists ?w [''lecture.mp4'']" by (simp add: path_exists_def)
  have h2: "path_exists ?w (case None of None \<Rightarrow> [path_stem [''lecture.mp4''] @ ''.'' @ ''mp3''] | Some f \<Rightarrow> f)"
    by (simp add: path_exists_def stem)
  have low: "str_lower ''n'' \<noteq> ''y''" by (simp add: str_lower_def char_lower_def)
  have user: "user_input ?env = Some ''n''" by simp
  note t = convert_confirms_overwrite [OF h1 h2, of ?env "''192k''",
      unfolded Let_def user option.case if_P [OF low]]
  from t have r: "convert_video_to_audio ?env [''lecture.mp4''] None ''mp3'' ''192k'' ?w =
      (Inr False, emit Input ?w)" by blast
  show ?thesis unfolding r by (simp add: emit_def)
qed

text \<open>
  Claim C9. When the input path does not exist, the chunker, the converter and the
  orchestrator stop at once: the chunker and the converter return \<open>False\<close>, the
  orchestrator exits with code 1, and the world is exactly the one they found: no
  directory created, no file written, no prompt, no load, no export, no subprocess.
\<close>

theorem missing_input_no_side_effects:
  "(\<not> path_exists w1 p1 \<longrightarrow> cut_audio_file cenv p1 T odir fmt w1 = (Inr False, w1)) \<and>
   (\<not> path_exists w2 p2 \<longrightarrow> convert_video_to_audio venv p2 ofile afmt q w2 = (Inr False, w2)) \<and>
   (\<not> path_exists w3 (arg_input_file a) \<longrightarrow> main oenv a w3 = (Inr 1, w3))"
  by (simp add: cut_audio_file_def convert_video_to_audio_def main_def resolve_output_dir_def)

theorem missing_input_no_side_effects_witness:
  "cut_audio_file \<lparr>mkdir_permitted = (\<lambda>p. True), load_audio = (\<lambda>p. Some [()]),
                    export_ok = (\<lambda>i. True), export_leftover = (\<lambda>i n. n)\<rparr>
     [''nothing.mp3''] 10 None ''mp3'' \<lparr>fs = Map.empty, events = []\<rparr> =
     (Inr False, \<lparr>fs = Map.empty, events = []\<rparr>) \<and>
   convert_video_to_audio \<lparr>user_input = Some ''y'', ffmpeg = (\<lambda>cmd f. (Exited 0, f))\<rparr>
     [''nothing.mp4''] None ''mp3'' ''192k'' \<lparr>fs = (Map.empty :: path \<rightharpoonup> unit node), events = ([] :: unit event list)\<rparr> =
     (Inr False, \<lparr>fs = Map.empty, events = []\<rparr>) \<and>
   main \<lparr>orch_mkdir_permitted = (\<lambda>p. True), executable = ''python3'',
          run_python = (\<lambda>s xs f. (Exited 0, f))\<rparr>
     \<lparr>arg_input_file = [''nothing.mp4''], arg_language = ''auto'', arg_skip_video_conversion = False,
      arg_skip_cutting = False, arg_skip_transcription = False, arg_duration = 10, arg_model = ''base'',
      arg_format = ''txt'', arg_output_dir = Some [''out''], arg_audio_format = ''mp3'',
      arg_audio_quality = ''192k''\<rparr>
     \<lparr>fs = (Map.empty :: path \<rightharpoonup> unit node), events = ([] :: unit event list)\<rparr> =
     (Inr 1, \<lparr>fs = Map.empty, events = []\<rparr>)"
proof -
  let ?w1 = "\<lparr>fs = Map.empty, events = []\<rparr> :: (unit, unit list) world"
  let ?w2 = "\<lparr>fs = Map.empty, events = []\<rparr> :: (unit, unit) world"
  let ?a = "\<lparr>arg_input_file = [''nothing.mp4''], arg_language = ''auto'', arg_skip_video_conversion = False,
      arg_skip_cutting = False, arg_skip_transcription = False, arg_duration = 10, arg_model = ''base'',
      arg_format = ''txt'', arg_output_dir = Some [''out''], arg_audio_format = ''mp3'',
      arg_audio_quality = ''192k''\<rparr>"
  have n1: "\<not> path_exists ?w1 [''nothing.mp3'']" by (simp add: path_exists_def)
  have n2: "\<not> path_exists ?w2 [''nothing.mp4'']" by (simp add: path_exists_def)
  have n3: "\<not> path_exists ?w2 (arg_input_file ?a)" by (simp add: path_exists_def)
  from missing_input_no_side_effects [where ?w1.0 = ?w1 and ?p1.0 = "[''nothing.mp3'']"
      and ?w2.0 = ?w2 and ?p2.0 = "[''nothing.mp4'']" and ?w3.0 = ?w2 and a = ?a]
    n1 n2 n3
  show ?thesis by blast
qed

section \<open>The transcriber\<close>

lemma transcriptions_append: "transcriptions (xs @ ys) = transcriptions xs @ transcriptions ys"
  by (simp add: transcriptions_def)

lemma transcribe_step_calls:
  "transcriptions (events (snd (transcribe_step env language output_path output_format st audio_file))) =
     transcriptions (events (snd st)) @ [(audio_file, transcribe_options language)]"
  by (simp add: transcribe_step_def Let_def emit_def transcriptions_def
      split: option.splits prod.splits)

lemma transcribe_loop_calls:
  "transcriptions (events (snd (foldl (transcribe_step env language output_path output_format) st files))) =
     transcriptions (events (snd st)) @ map (\<lambda>p. (p, transcribe_options language)) files"
  by (induction files arbitrary: st) (simp_all add: transcribe_step_calls)

lemma transcribe_step_events_prefix:
  "take (length (events (snd st)))
     (events (snd (transcribe_step env language output_path output_format st audio_file))) = events (snd st)"
  by (simp add: transcribe_step_def Let_def emit_def split: option.splits prod.splits)

lemma transcribe_step_events_length:
  "length (events (snd st)) \<le>
     length (events (snd (transcribe_step env language output_path output_format st audio_file)))"
  by (simp add: transcribe_step_def Let_def emit_def split: option.splits prod.splits)

lemma transcribe_step_extends:
  "\<exists>es. events (snd (transcribe_step env language output_path output_format st audio_file)) =
     events (snd st) @ es"
  by (simp add: transcribe_step_def Let_def emit_def split: option.splits prod.splits)

lemma transcribe_loop_extends:
  "\<exists>es. events (snd (foldl (transcribe_step env language output_path output_format) st files)) =
     events (snd st) @ es"
proof (induction files arbitrary: st)
  case Nil
  then show ?case by simp
next
  case (Cons f files)
  obtain es1 where e1: "events (snd (transcribe_step env language output_path output_format st f)) =
      events (snd st) @ es1"
    using transcribe_step_extends by blast
  obtain es2 where "events (snd (foldl (transcribe_step env language output_path output_format)
      (transcribe_step env language output_path output_format st f) files)) =
      events (snd (transcribe_step env language output_path output_format st f)) @ es2"
    using Cons.IH by blast
  then show ?case using e1 by simp
qed

lemma transcriptions_new_events:
  "events w' = events w @ es \<Longrightarrow> transcriptions (new_events w w') = transcriptions es"
  by (simp add: new_events_def)

text \<open>The engine calls of a whole run: none, or one per file in sorted order.\<close>

lemma transcribe_run_calls:
  "transcriptions (new_events w (snd (transcribe_audio_files env input_path language model odir output_format w))) =
     (case resolve_audio_files env input_path w of
        None \<Rightarrow> []
      | Some (found, default_dir) \<Rightarrow>
          if fst (mkdir_parents (trans_mkdir_permitted env)
                    (case odir of None \<Rightarrow> default_dir | Some d \<Rightarrow> d) w) \<and> load_model_ok env model
          then map (\<lambda>p. (p, transcribe_options language)) (sort found)
          else [])"
proof (cases "resolve_audio_files env input_path w")
  case None
  then show ?thesis
    by (simp add: transcribe_audio_files_def new_events_def transcriptions_def)
next
  case (Some r)
  obtain found default_dir where r: "r = (found, default_dir)" by (cases r)
  let ?out = "case odir of None \<Rightarrow> default_dir | Some d \<Rightarrow> d"
  obtain ok w1 where mk: "mkdir_parents (trans_mkdir_permitted env) ?out w = (ok, w1)"
    by (cases "mkdir_parents (trans_mkdir_permitted env) ?out w")
  have ev1: "events w1 = events w @ [Mkdir ?out]"
    using mkdir_parents_events [of "trans_mkdir_permitted env" ?out w] mk by simp
  show ?thesis
  proof (cases "found = []")
    case True
    then show ?thesis using Some r
      by (simp add: transcribe_audio_files_def new_events_def transcriptions_def)
  next
    case False
    note ne = this
    show ?thesis
    proof (cases "ok \<and> load_model_ok env model")
      case False
      have res: "snd (transcribe_audio_files env input_path language model odir output_format w) =
          (if ok then emit (LoadModel model) w1 else w1)"
        using Some r ne mk False by (cases ok) (simp_all add: transcribe_audio_files_def Let_def)
      have e: "events (if ok then emit (LoadModel model) w1 else w1) =
          events w @ (if ok then [Mkdir ?out, LoadModel model] else [Mkdir ?out])"
        by (simp add: emit_def ev1)
      have "transcriptions (new_events w (if ok then emit (LoadModel model) w1 else w1)) = []"
        using transcriptions_new_events [OF e] by (simp add: transcriptions_def)
      then show ?thesis unfolding res using Some r mk False by auto
    next
      case True
      let ?w2 = "emit (LoadModel model) w1"
      let ?st = "foldl (transcribe_step env language ?out output_format) (0, ?w2) (sort found)"
      have res: "snd (transcribe_audio_files env input_path language model odir output_format w) = snd ?st"
        using Some r ne mk True by (simp add: transcribe_audio_files_def Let_def)
      have ev2: "events ?w2 = events w @ [Mkdir ?out, LoadModel model]"
        by (simp add: emit_def ev1)
      obtain es where es: "events (snd ?st) = events ?w2 @ es"
        using transcribe_loop_extends [of env language ?out output_format "(0, ?w2)" "sort found"] by auto
      have "transcriptions (events (snd ?st)) =
          transcriptions (events ?w2) @ map (\<lambda>p. (p, transcribe_options language)) (sort found)"
        using transcribe_loop_calls [of env language ?out output_format "(0, ?w2)" "sort found"] by simp
      then have tes: "transcriptions es = map (\<lambda>p. (p, transcribe_options language)) (sort found)"
        unfolding es transcriptions_append by simp
      have "events (snd ?st) = events w @ ([Mkdir ?out, LoadModel model] @ es)"
        unfolding es ev2 by simp
      then have "transcriptions (new_events w (snd ?st)) =
          transcriptions ([Mkdir ?out, LoadModel model] @ es)"
        by (rule transcriptions_new_events)
      also have "\<dots> = transcriptions es" by (simp add: transcriptions_def)
      finally show ?thesis unfolding res using Some r mk True tes by simp
    qed
  qed
qed

text \<open>
  Claim C6. In every run, every call of the transcription engine gets the same keyword
  arguments: none at all when the configured language is \<open>auto\<close> (the word \<open>auto\<close>
  never reaches the engine), and exactly \<open>language=<code>\<close> for any other configured
  value. A run that gets past the model load calls the engine once per file.
\<close>

theorem language_passed_or_omitted:
  "(let calls = transcriptions (new_events w
                  (snd (transcribe_audio_files env input_path language model odir output_format w)));
        opts = (if language = ''auto'' then [] else [(''language'', language)])
    in (\<forall>c\<in>set calls. snd c = opts) \<and>
       (\<forall>c\<in>set calls. (''language'', ''auto'') \<notin> set (snd c)) \<and>
       calls =
         (case resolve_audio_files env input_path w of
            None \<Rightarrow> []
          | Some (found, default_dir) \<Rightarrow>
              if fst (mkdir_parents (trans_mkdir_permitted env)
                        (case odir of None \<Rightarrow> default_dir | Some d \<Rightarrow> d) w) \<and> load_model_ok env model
              then map (\<lambda>p. (p, opts)) (sort found)
              else []))"
proof -
  let ?calls = "transcriptions (new_events w
                  (snd (transcribe_audio_files env input_path language model odir output_format w)))"
  let ?opts = "if language = ''auto'' then [] else [(''language'', language)]"
  have o: "transcribe_options language = ?opts" by (simp add: transcribe_options_def)
  have run: "?calls =
      (case resolve_audio_files env input_path w of
         None \<Rightarrow> []
       | Some (found, default_dir) \<Rightarrow>
           if fst (mkdir_parents (trans_mkdir_permitted env)
                     (case odir of None \<Rightarrow> default_dir | Some d \<Rightarrow> d) w) \<and> load_model_ok env model
           then map (\<lambda>p. (p, ?opts)) (sort found)
           else [])"
    using transcribe_run_calls [of w env input_path language model odir output_format]
    unfolding o .
  define ps where "ps =
      (case resolve_audio_files env input_path w of
         None \<Rightarrow> []
       | Some (found, default_dir) \<Rightarrow>
           if fst (mkdir_parents (trans_mkdir_permitted env)
                     (case odir of None \<Rightarrow> default_dir | Some d \<Rightarrow> d) w) \<and> load_model_ok env model
           then sort found
           else [])"
  have shape: "?calls = map (\<lambda>p. (p, ?opts)) ps"
    unfolding run ps_def by (simp split: option.splits prod.splits)
  have a: "\<forall>c\<in>set ?calls. snd c = ?opts"
    unfolding shape by simp
  have b: "\<forall>c\<in>set ?calls. (''language'', ''auto'') \<notin> set (snd c)"
    unfolding shape by simp
  show ?thesis unfolding Let_def by (intro conjI a b run)
qed

lemma mixed_dir_resolve:
  "resolve_audio_files mixed_dir_env [''in''] mixed_dir_world =
     Some ([[''in'', ''c.mp3''], [''in'', ''a.mp3''], [''in'', ''b.wav'']], [''in'', ''transcripts''])"
  by code_simp

lemma mixed_dir_sort:
  "sort [[''in'', ''c.mp3''], [''in'', ''a.mp3''], [''in'', ''b.wav'']] =
     [[''in'', ''a.mp3''], [''in'', ''b.wav''], [''in'', ''c.mp3'']]"
  by code_simp

lemma mixed_dir_mkdir:
  "fst (mkdir_parents (trans_mkdir_permitted mixed_dir_env) [''in'', ''transcripts''] mixed_dir_world)"
  by code_simp

theorem language_passed_or_omitted_witness:
  "transcriptions (new_events mixed_dir_world
     (snd (transcribe_audio_files mixed_dir_env [''in''] ''auto'' ''base'' None ''txt'' mixed_dir_world))) =
     [([''in'', ''a.mp3''], []), ([''in'', ''b.wav''], []), ([''in'', ''c.mp3''], [])] \<and>
   transcriptions (new_events mixed_dir_world
     (snd (transcribe_audio_files mixed_dir_env [''in''] ''en'' ''base'' None ''txt'' mixed_dir_world))) =
     [([''in'', ''a.mp3''], [(''language'', ''en'')]), ([''in'', ''b.wav''], [(''language'', ''en'')]),
      ([''in'', ''c.mp3''], [(''language'', ''en'')])]"
proof -
  have m: "load_model_ok mixed_dir_env ''base''" by (simp add: mixed_dir_env_def)
  note t = language_passed_or_omitted [of mixed_dir_world mixed_dir_env "[''in'']" _ "''base''" None "''txt''",
      unfolded Let_def mixed_dir_resolve option.case prod.case]
  have a: "transcriptions (new_events mixed_dir_world
     (snd (transcribe_audio_files mixed_dir_env [''in''] ''auto'' ''base'' None ''txt'' mixed_dir_world))) =
     map (\<lambda>p. (p, [])) (sort [[''in'', ''c.mp3''], [''in'', ''a.mp3''], [''in'', ''b.wav'']])"
    using t [of "''auto''"] mixed_dir_mkdir m by simp
  have e: "transcriptions (new_events mixed_dir_world
     (snd (transcribe_audio_files mixed_dir_env [''in''] ''en'' ''base'' None ''txt'' mixed_dir_world))) =
     map (\<lambda>p. (p, [(''language'', ''en'')])) (sort [[''in'', ''c.mp3''], [''in'', ''a.mp3''], [''in'', ''b.wav'']])"
    using t [of "''en''"] mixed_dir_mkdir m by simp
  show ?thesis unfolding a e mixed_dir_sort by simp
qed

subsection \<open>Files found in a directory\<close>

lemma set_glob: "set (glob entries d e) = {d @ [n] | n. n \<in> set entries \<and> suffix e n}"
  by (auto simp: glob_def fnmatch_star_def)

lemma distinct_glob: "distinct entries \<Longrightarrow> distinct (glob entries d e)"
  by (simp add: glob_def distinct_map inj_on_def)

lemma glob_disjoint:
  assumes "\<not> suffix e1 e2" "\<not> suffix e2 e1"
  shows "set (glob entries d e1) \<inter> set (glob entries d e2) = {}"
proof -
  have False if "suffix e1 n" "suffix e2 n" for n
    using suffix_same_cases [OF that] assms by blast
  then show ?thesis by (auto simp: set_glob)
qed

lemma extensions_incomparable:
  "\<not> suffix ''.mp3'' ''.wav''" "\<not> suffix ''.wav'' ''.mp3''"
  "\<not> suffix ''.mp3'' ''.m4a''" "\<not> suffix ''.m4a'' ''.mp3''"
  "\<not> suffix ''.mp3'' ''.flac''" "\<not> suffix ''.flac'' ''.mp3''"
  "\<not> suffix ''.mp3'' ''.aac''" "\<not> suffix ''.aac'' ''.mp3''"
  "\<not> suffix ''.wav'' ''.m4a''" "\<not> suffix ''.m4a'' ''.wav''"
  "\<not> suffix ''.wav'' ''.flac''" "\<not> suffix ''.flac'' ''.wav''"
  "\<not> suffix ''.wav'' ''.aac''" "\<not> suffix ''.aac'' ''.wav''"
  "\<not> suffix ''.m4a'' ''.flac''" "\<not> suffix ''.flac'' ''.m4a''"
  "\<not> suffix ''.m4a'' ''.aac''" "\<not> suffix ''.aac'' ''.m4a''"
  "\<not> suffix ''.flac'' ''.aac''" "\<not> suffix ''.aac'' ''.flac''"
  by code_simp+

lemma distinct_found:
  assumes "distinct entries"
  shows "distinct (concat (map (glob entries d) audio_extensions))"
proof -
  let ?g = "glob entries d"
  note dj = glob_disjoint [of _ _ entries d]
  have d1: "distinct (?g ''.flac'' @ ?g ''.aac'')"
    using assms by (simp add: distinct_glob dj extensions_incomparable)
  have d2: "distinct (?g ''.m4a'' @ ?g ''.flac'' @ ?g ''.aac'')"
    using d1 assms by (simp add: distinct_glob dj extensions_incomparable Int_Un_distrib)
  have d3: "distinct (?g ''.wav'' @ ?g ''.m4a'' @ ?g ''.flac'' @ ?g ''.aac'')"
    using d2 assms by (simp add: distinct_glob dj extensions_incomparable Int_Un_distrib)
  have d4: "distinct (?g ''.mp3'' @ ?g ''.wav'' @ ?g ''.m4a'' @ ?g ''.flac'' @ ?g ''.aac'')"
    using d3 assms by (simp add: distinct_glob dj extensions_incomparable Int_Un_distrib)
  then show ?thesis by (simp add: audio_extensions_def)
qed

lemma set_found:
  "set (concat (map (glob entries d) audio_extensions)) =
     {d @ [n] | n. n \<in> set entries \<and> (\<exists>e\<in>set audio_extensions. suffix e n)}"
  by (auto simp: set_glob)

lemma sort_distinct: "distinct xs \<Longrightarrow> sort xs = sorted_list_of_set (set xs)"
  by (simp add: sorted_list_of_set_sort_remdups distinct_remdups_id)

lemma resolve_directory:
  "is_dir (fs w d) \<Longrightarrow>
     resolve_audio_files env d w =
       Some (concat (map (glob (scandir env d) d) audio_extensions), d @ [''transcripts''])"
  by (auto simp: resolve_audio_files_def is_dir_def is_file_def split: option.splits node.splits)

text \<open>
  Claim C5, amended. When the input path is a directory (and the output directory and
  the model are available), the engine is called on exactly the entries of the directory
  whose names end in \<open>.mp3\<close>, \<open>.wav\<close>, \<open>.m4a\<close>, \<open>.flac\<close> or \<open>.aac\<close>, written
  in lower case as here (the comparison distinguishes case), once each, in increasing
  order of their paths; the order in which the system enumerates the directory plays no
  role.
\<close>

theorem directory_files_sorted:
  "is_dir (fs w d) \<Longrightarrow> distinct (scandir env d) \<Longrightarrow>
   fst (mkdir_parents (trans_mkdir_permitted env)
          (case odir of None \<Rightarrow> d @ [''transcripts''] | Some x \<Rightarrow> x) w) \<Longrightarrow>
   load_model_ok env model \<Longrightarrow>
     map fst (transcriptions (new_events w
       (snd (transcribe_audio_files env d language model odir output_format w)))) =
     sorted_list_of_set
       {d @ [name] | name. name \<in> set (scandir env d) \<and> (\<exists>ext\<in>set audio_extensions. suffix ext name)}"
proof -
  assume dir: "is_dir (fs w d)" and dist: "distinct (scandir env d)"
    and mk: "fst (mkdir_parents (trans_mkdir_permitted env)
          (case odir of None \<Rightarrow> d @ [''transcripts''] | Some x \<Rightarrow> x) w)"
    and lm: "load_model_ok env model"
  let ?found = "concat (map (glob (scandir env d) d) audio_extensions)"
  have "transcriptions (new_events w
       (snd (transcribe_audio_files env d language model odir output_format w))) =
       map (\<lambda>p. (p, transcribe_options language)) (sort ?found)"
    using transcribe_run_calls [of w env d language model odir output_format]
    unfolding resolve_directory [OF dir] using mk lm by simp
  then have "map fst (transcriptions (new_events w
       (snd (transcribe_audio_files env d language model odir output_format w)))) = sort ?found"
    by (simp add: comp_def)
  also have "\<dots> = sorted_list_of_set (set ?found)"
    by (rule sort_distinct [OF distinct_found [OF dist]])
  finally show ?thesis unfolding set_found .
qed


theorem directory_files_sorted_witness:
  "map fst (transcriptions (new_events mixed_dir_world
     (snd (transcribe_audio_files mixed_dir_env [''in''] ''auto'' ''base'' None ''srt'' mixed_dir_world)))) =
   sorted_list_of_set {[''in'', ''a.mp3''], [''in'', ''b.wav''], [''in'', ''c.mp3'']}"
proof -
  have h1: "is_dir (fs mixed_dir_world [''in''])"
    by (simp add: mixed_dir_world_def is_dir_def)
  have h2: "distinct (scandir mixed_dir_env [''in''])"
    by (simp add: mixed_dir_env_def)
  have h3: "fst (mkdir_parents (trans_mkdir_permitted mixed_dir_env)
          (case None of None \<Rightarrow> [''in''] @ [''transcripts''] | Some x \<Rightarrow> x) mixed_dir_world)"
    by code_simp
  have h4: "load_model_ok mixed_dir_env ''base''"
    by (simp add: mixed_dir_env_def)
  have sfx: "suffix ''.wav'' ''b.wav''" "suffix ''.mp3'' ''c.mp3''" "suffix ''.mp3'' ''a.mp3''"
    "\<not> (\<exists>ext\<in>set audio_extensions. suffix ext ''notes.txt'')"
    by code_simp+
  have s: "{[''in''] @ [name] | name. name \<in> set (scandir mixed_dir_env [''in'']) \<and>
            (\<exists>ext\<in>set audio_extensions. suffix ext name)} =
           {[''in'', ''a.mp3''], [''in'', ''b.wav''], [''in'', ''c.mp3'']}"
    using sfx by (auto simp: mixed_dir_env_def audio_extensions_def)
  show ?thesis
    using directory_files_sorted [OF h1 h2 h3 h4, of "''auto''" "''srt''"] unfolding s .
qed

text \<open>
  Claim C5 as stated asks for a comparison of extensions that ignores case. It fails: a
  directory whose only entry is the file \<open>TALK.MP3\<close> (its extension is \<open>mp3\<close> once
  lower-cased) yields no file to process; the transcriber returns \<open>False\<close> and leaves
  the world as it found it.
\<close>

theorem uppercase_extension_not_processed:
  "scandir uppercase_dir_env [''talks''] = [''TALK.MP3''] \<and>
   is_file (fs uppercase_dir_world [''talks'', ''TALK.MP3'']) \<and>
   suffix ''.mp3'' (str_lower ''TALK.MP3'') \<and>
   transcribe_audio_files uppercase_dir_env [''talks''] ''auto'' ''base'' None ''txt'' uppercase_dir_world =
     (False, uppercase_dir_world) \<and>
   transcriptions (new_events uppercase_dir_world
     (snd (transcribe_audio_files uppercase_dir_env [''talks''] ''auto'' ''base'' None ''txt''
        uppercase_dir_world))) = []"
proof -
  have a: "scandir uppercase_dir_env [''talks''] = [''TALK.MP3'']"
    by (simp add: uppercase_dir_env_def)
  have b: "is_file (fs uppercase_dir_world [''talks'', ''TALK.MP3''])"
    by (simp add: uppercase_dir_world_def is_file_def)
  have c: "suffix ''.mp3'' (str_lower ''TALK.MP3'')" by code_simp
  have r: "resolve_audio_files uppercase_dir_env [''talks''] uppercase_dir_world =
      Some ([], [''talks'', ''transcripts''])" by code_simp
  have d: "transcribe_audio_files uppercase_dir_env [''talks''] ''auto'' ''base'' None ''txt'' uppercase_dir_world =
     (False, uppercase_dir_world)"
    by (simp add: transcribe_audio_files_def r)
  have e: "transcriptions (new_events uppercase_dir_world
     (snd (transcribe_audio_files uppercase_dir_env [''talks''] ''auto'' ''base'' None ''txt''
        uppercase_dir_world))) = []"
    unfolding d by (simp add: new_events_def transcriptions_def)
  show ?thesis by (intro conjI a b c d e)
qed

section \<open>The orchestrator\<close>

lemma snd_run_script: "snd (run_script env s xs w) = after_script env s xs w"
  by (simp add: run_script_def after_script_def Let_def split: proc_outcome.splits)

lemma fst_run_script:
  "fst (run_script env s xs w) =
     (case fst (run_python env s xs (fs w)) of
        Exited n \<Rightarrow> Inr (n = 0) | NotFound \<Rightarrow> Inl OSError | OtherError \<Rightarrow> Inl OtherException)"
  by (simp add: run_script_def Let_def split: proc_outcome.splits)

lemma events_after_script:
  "events (after_script env s xs w) =
     events w @ [Subprocess (executable env # s # xs) (fst (run_python env s xs (fs w)))]"
  by (simp add: after_script_def emit_def)

lemma fs_after_script: "fs (after_script env s xs w) = snd (run_python env s xs (fs w))"
  by (simp add: after_script_def)

lemma script_calls_simps:
  "script_calls [] = []"
  "script_calls (Subprocess (x # s # xs) oc # es) = (s, oc) # script_calls es"
  "script_calls (Mkdir p # es) = script_calls es"
  "script_calls (es1 @ es2) = script_calls es1 @ script_calls es2"
  by (simp_all add: script_calls_def)

lemma mkdirs_simps:
  "mkdirs [] = []"
  "mkdirs (Subprocess cmd oc # es) = mkdirs es"
  "mkdirs (Mkdir p # es) = p # mkdirs es"
  "mkdirs (es1 @ es2) = mkdirs es1 @ mkdirs es2"
  by (simp_all add: mkdirs_def)

lemma new_events_append: "events w' = events w @ es \<Longrightarrow> new_events w w' = es"
  by (simp add: new_events_def)

text \<open>What each step adds to the log, and how it ends.\<close>

lemma step_convert_cases:
  "step_convert env a od w =
     (if arg_skip_video_conversion a then Inr (arg_input_file a, w)
      else
        let af = od @ [path_stem (arg_input_file a) @ ''.'' @ arg_audio_format a];
            w1 = after_script env ''video_to_audio.py'' (video_args a af) w
        in case fst (run_python env ''video_to_audio.py'' (video_args a af) (fs w)) of
             Exited n \<Rightarrow> if n = 0 then Inr (af, w1) else Inl (Inr 1, w1)
           | NotFound \<Rightarrow> Inl (Inl OSError, w1)
           | OtherError \<Rightarrow> Inl (Inl OtherException, w1))"
  by (simp add: step_convert_def Let_def case_prod_unfold snd_run_script fst_run_script
      split: proc_outcome.splits)

lemma step_cut_cases:
  "step_cut env a od cur w =
     (if arg_skip_cutting a then Inr (cur, w)
      else
        let cd = od @ [path_stem (arg_input_file a) @ ''_chunks''];
            w1 = after_script env ''cut_audio.py'' (cutting_args a cur cd) w
        in case fst (run_python env ''cut_audio.py'' (cutting_args a cur cd) (fs w)) of
             Exited n \<Rightarrow> if n = 0 then Inr (cd, w1) else Inl (Inr 1, w1)
           | NotFound \<Rightarrow> Inl (Inl OSError, w1)
           | OtherError \<Rightarrow> Inl (Inl OtherException, w1))"
  by (simp add: step_cut_def Let_def case_prod_unfold snd_run_script fst_run_script
      split: proc_outcome.splits)

lemma step_transcribe_cases:
  "step_transcribe env a od tin w =
     (if arg_skip_transcription a then (Inr 0, w)
      else
        let td = od @ [path_stem (arg_input_file a) @ ''_transcripts''];
            w1 = after_script env ''transcribe_audio.py'' (transcription_args a tin td) w
        in case fst (run_python env ''transcribe_audio.py'' (transcription_args a tin td) (fs w)) of
             Exited n \<Rightarrow> if n = 0 then (Inr 0, w1) else (Inr 1, w1)
           | NotFound \<Rightarrow> (Inl OSError, w1)
           | OtherError \<Rightarrow> (Inl OtherException, w1))"
  by (simp add: step_transcribe_def Let_def case_prod_unfold snd_run_script fst_run_script
      split: proc_outcome.splits)

lemma resolve_output_dir_cases:
  "resolve_output_dir env a w =
     (if \<not> path_exists w (arg_input_file a) then Inl (Inr 1, w)
      else case arg_output_dir a of
             None \<Rightarrow> Inr (path_parent (arg_input_file a), w)
           | Some d \<Rightarrow>
               if fst (mkdir_parents (orch_mkdir_permitted env) d w)
               then Inr (d, snd (mkdir_parents (orch_mkdir_permitted env) d w))
               else Inl (Inl OSError, snd (mkdir_parents (orch_mkdir_permitted env) d w)))"
  by (simp add: resolve_output_dir_def case_prod_unfold split: option.splits bool.splits)

subsection \<open>Fail-fast sequencing\<close>

lemma fail_fast_abort: "res \<noteq> Inr 0 \<Longrightarrow> fail_fast plan [] res"
  by (simp add: fail_fast_def)

lemma fail_fast_done: "fail_fast [] [] (Inr 0)"
  by (simp add: fail_fast_def)

lemma fail_fast_stop:
  "oc \<noteq> Exited 0 \<Longrightarrow> res \<noteq> Inr 0 \<Longrightarrow> (\<And>n. oc = Exited n \<Longrightarrow> res = Inr 1) \<Longrightarrow>
     fail_fast (s # plan) [(s, oc)] res"
  by (auto simp: fail_fast_def)

lemma fail_fast_go: "fail_fast plan calls res \<Longrightarrow> fail_fast (s # plan) ((s, Exited 0) # calls) res"
  by (cases calls) (auto simp: fail_fast_def)

lemma script_calls_one: "script_calls [Subprocess (x # s # xs) oc] = [(s, oc)]"
  by (simp add: script_calls_simps)

lemma mkdirs_one: "mkdirs [Subprocess cmd oc] = []"
  by (simp add: mkdirs_simps)

text \<open>The third step alone.\<close>

lemma tail_transcribe:
  "\<exists>es. events (snd (step_transcribe env a od tin w)) = events w @ es \<and> mkdirs es = [] \<and>
        fail_fast (if arg_skip_transcription a then [] else [''transcribe_audio.py''])
          (script_calls es) (fst (step_transcribe env a od tin w))"
proof (cases "arg_skip_transcription a")
  case True
  then have "step_transcribe env a od tin w = (Inr 0, w)" by (simp add: step_transcribe_cases)
  then show ?thesis using True by (simp add: fail_fast_done script_calls_simps mkdirs_simps)
next
  case False
  let ?xs = "transcription_args a tin (od @ [path_stem (arg_input_file a) @ ''_transcripts''])"
  let ?oc = "fst (run_python env ''transcribe_audio.py'' ?xs (fs w))"
  let ?w1 = "after_script env ''transcribe_audio.py'' ?xs w"
  let ?e = "[Subprocess (executable env # ''transcribe_audio.py'' # ?xs) ?oc]"
  have w1: "snd (step_transcribe env a od tin w) = ?w1"
    using False by (simp add: step_transcribe_cases Let_def split: proc_outcome.splits)
  have ev: "events ?w1 = events w @ ?e" by (rule events_after_script)
  have ff: "fail_fast [''transcribe_audio.py''] [(''transcribe_audio.py'', ?oc)]
      (fst (step_transcribe env a od tin w))"
  proof (cases "?oc = Exited 0")
    case True
    then have "fst (step_transcribe env a od tin w) = Inr 0"
      using False by (simp add: step_transcribe_cases Let_def)
    then show ?thesis using True fail_fast_go [OF fail_fast_done] by simp
  next
    case stop: False
    have "fst (step_transcribe env a od tin w) \<noteq> Inr 0 \<and>
        (\<forall>n. ?oc = Exited n \<longrightarrow> fst (step_transcribe env a od tin w) = Inr 1)"
      using False stop by (cases ?oc) (auto simp: step_transcribe_cases Let_def)
    then show ?thesis using stop by (intro fail_fast_stop) auto
  qed
  show ?thesis
    unfolding w1 [symmetric] using ev ff False
    by (intro exI [of _ ?e]) (simp add: w1 script_calls_one mkdirs_one)
qed


text \<open>A step followed by the rest of the pipeline.\<close>

lemma compose_step:
  fixes rest :: "path \<Rightarrow> ('a, 'c) world \<Rightarrow> ('a, 'c) ending"
  assumes sr: "sr = (if k then Inr (x0, w)
                     else case fst (run_python env s xs (fs w)) of
                            Exited n \<Rightarrow> if n = 0 then Inr (x1, after_script env s xs w)
                                         else Inl (Inr 1, after_script env s xs w)
                          | NotFound \<Rightarrow> Inl (Inl OSError, after_script env s xs w)
                          | OtherError \<Rightarrow> Inl (Inl OtherException, after_script env s xs w))"
    and rest: "\<And>x v. \<exists>es. events (snd (rest x v)) = events v @ es \<and> mkdirs es = [] \<and>
                  fail_fast plan (script_calls es) (fst (rest x v))"
  shows "\<exists>es. events (snd (case sr of Inl e \<Rightarrow> e | Inr (x, v) \<Rightarrow> rest x v)) = events w @ es \<and>
               mkdirs es = [] \<and>
               fail_fast ((if k then [] else [s]) @ plan) (script_calls es)
                 (fst (case sr of Inl e \<Rightarrow> e | Inr (x, v) \<Rightarrow> rest x v))"
proof (cases k)
  case True
  then have "(case sr of Inl e \<Rightarrow> e | Inr (x, v) \<Rightarrow> rest x v) = rest x0 w"
    by (simp add: sr)
  then show ?thesis using rest [of x0 w] True by simp
next
  case False
  let ?oc = "fst (run_python env s xs (fs w))"
  let ?w1 = "after_script env s xs w"
  let ?e = "Subprocess (executable env # s # xs) ?oc"
  have ev: "events ?w1 = events w @ [?e]" by (rule events_after_script)
  show ?thesis
  proof (cases "?oc = Exited 0")
    case True
    then have run: "(case sr of Inl e \<Rightarrow> e | Inr (x, v) \<Rightarrow> rest x v) = rest x1 ?w1"
      using False by (simp add: sr)
    obtain es where es: "events (snd (rest x1 ?w1)) = events ?w1 @ es" "mkdirs es = []"
      "fail_fast plan (script_calls es) (fst (rest x1 ?w1))"
      using rest [of x1 ?w1] by blast
    have a: "events (snd (rest x1 ?w1)) = events w @ (?e # es)" using es(1) ev by simp
    have b: "mkdirs (?e # es) = []" using es(2) by (simp add: mkdirs_simps)
    have c: "fail_fast (s # plan) (script_calls (?e # es)) (fst (rest x1 ?w1))"
      using fail_fast_go [OF es(3), of s] True by (simp add: script_calls_simps)
    show ?thesis unfolding run using a b c False by (intro exI [of _ "?e # es"]) simp
  next
    case stop: False
    define res :: "py_error + int" where
      "res = (case ?oc of Exited n \<Rightarrow> Inr 1 | NotFound \<Rightarrow> Inl OSError | OtherError \<Rightarrow> Inl OtherException)"
    have run: "(case sr of Inl e \<Rightarrow> e | Inr (x, v) \<Rightarrow> rest x v) = (res, ?w1)"
      using False stop by (cases ?oc) (simp_all add: sr res_def)
    have r0: "res \<noteq> Inr 0" by (cases ?oc) (simp_all add: res_def)
    have r1: "res = Inr 1" if "?oc = Exited n" for n using that by (simp add: res_def)
    have c: "fail_fast (s # plan) [(s, ?oc)] res"
      using stop r0 r1 by (rule fail_fast_stop)
    show ?thesis unfolding run using ev c False
      by (intro exI [of _ "[?e]"]) (simp add: script_calls_one mkdirs_one)
  qed
qed

lemma tail_cut:
  "\<exists>es. events (snd (case step_cut env a od cur w of Inl e \<Rightarrow> e
                       | Inr (tin, v) \<Rightarrow> step_transcribe env a od tin v)) = events w @ es \<and>
        mkdirs es = [] \<and>
        fail_fast ((if arg_skip_cutting a then [] else [''cut_audio.py'']) @
                   (if arg_skip_transcription a then [] else [''transcribe_audio.py'']))
          (script_calls es)
          (fst (case step_cut env a od cur w of Inl e \<Rightarrow> e
                | Inr (tin, v) \<Rightarrow> step_transcribe env a od tin v))"
  by (rule compose_step [where rest = "step_transcribe env a od" and k = "arg_skip_cutting a"
        and s = "''cut_audio.py''" and env = env and w = w and ?x0.0 = cur
        and ?x1.0 = "od @ [path_stem (arg_input_file a) @ ''_chunks'']"
        and xs = "cutting_args a cur (od @ [path_stem (arg_input_file a) @ ''_chunks''])",
        OF _ tail_transcribe])
     (unfold step_cut_cases Let_def, rule refl)

lemma tail_convert:
  "\<exists>es. events (snd (case step_convert env a od w of Inl e \<Rightarrow> e
                       | Inr (cur, v) \<Rightarrow>
                           (case step_cut env a od cur v of Inl e \<Rightarrow> e
                            | Inr (tin, u) \<Rightarrow> step_transcribe env a od tin u))) = events w @ es \<and>
        mkdirs es = [] \<and>
        fail_fast (planned a) (script_calls es)
          (fst (case step_convert env a od w of Inl e \<Rightarrow> e
                | Inr (cur, v) \<Rightarrow>
                    (case step_cut env a od cur v of Inl e \<Rightarrow> e
                     | Inr (tin, u) \<Rightarrow> step_transcribe env a od tin u)))"
proof -
  have p: "planned a = (if arg_skip_video_conversion a then [] else [''video_to_audio.py'']) @
      ((if arg_skip_cutting a then [] else [''cut_audio.py'']) @
       (if arg_skip_transcription a then [] else [''transcribe_audio.py'']))"
    by (simp add: planned_def)
  show ?thesis
    unfolding p
    by (rule compose_step [where rest = "\<lambda>cur v. case step_cut env a od cur v of Inl e \<Rightarrow> e
          | Inr (tin, u) \<Rightarrow> step_transcribe env a od tin u"
          and k = "arg_skip_video_conversion a" and s = "''video_to_audio.py''" and env = env and w = w
          and ?x0.0 = "arg_input_file a"
          and ?x1.0 = "od @ [path_stem (arg_input_file a) @ ''.'' @ arg_audio_format a]"
          and xs = "video_args a (od @ [path_stem (arg_input_file a) @ ''.'' @ arg_audio_format a])",
          OF _ tail_cut])
       (unfold step_convert_cases Let_def, rule refl)
qed

lemma main_run:
  "\<exists>es. events (snd (main env a w)) = events w @ es \<and>
        (\<forall>p\<in>set (mkdirs es). arg_output_dir a = Some p) \<and>
        fail_fast (planned a) (script_calls es) (fst (main env a w))"
proof (cases "resolve_output_dir env a w")
  case (Inl ending)
  have "(ending = (Inr 1, w)) \<or>
      (\<exists>d. arg_output_dir a = Some d \<and>
           ending = (Inl OSError, snd (mkdir_parents (orch_mkdir_permitted env) d w)))"
    using Inl by (auto simp: resolve_output_dir_cases split: if_splits option.splits)
  then show ?thesis
  proof
    assume e: "ending = (Inr 1, w)"
    have "fail_fast (planned a) [] (Inr 1)" by (rule fail_fast_abort) simp
    then show ?thesis using Inl e
      by (intro exI [of _ "[]"]) (simp add: main_def script_calls_simps mkdirs_simps)
  next
    assume "\<exists>d. arg_output_dir a = Some d \<and>
           ending = (Inl OSError, snd (mkdir_parents (orch_mkdir_permitted env) d w))"
    then obtain d where d: "arg_output_dir a = Some d"
      and e: "ending = (Inl OSError, snd (mkdir_parents (orch_mkdir_permitted env) d w))" by blast
    have "fail_fast (planned a) [] (Inl OSError)" by (rule fail_fast_abort) simp
    then show ?thesis using Inl e d
      by (intro exI [of _ "[Mkdir d]"])
         (simp add: main_def script_calls_simps mkdirs_simps mkdir_parents_events)
  qed
next
  case (Inr r)
  obtain od w0 where r: "r = (od, w0)" by (cases r)
  have "\<exists>ms. events w0 = events w @ ms \<and> script_calls ms = [] \<and>
      (\<forall>p\<in>set (mkdirs ms). arg_output_dir a = Some p)"
  proof (cases "arg_output_dir a")
    case None
    then have "w0 = w" using Inr r by (auto simp: resolve_output_dir_cases split: if_splits)
    then show ?thesis by (intro exI [of _ "[]"]) (simp add: script_calls_simps mkdirs_simps)
  next
    case (Some d)
    then have "w0 = snd (mkdir_parents (orch_mkdir_permitted env) d w)"
      using Inr r by (auto simp: resolve_output_dir_cases split: if_splits)
    then show ?thesis using Some
      by (intro exI [of _ "[Mkdir d]"]) (simp add: script_calls_simps mkdirs_simps mkdir_parents_events)
  qed
  then obtain ms where ms: "events w0 = events w @ ms" "script_calls ms = []"
    "\<forall>p\<in>set (mkdirs ms). arg_output_dir a = Some p" by blast
  let ?rest = "case step_convert env a od w0 of Inl e \<Rightarrow> e
                | Inr (cur, v) \<Rightarrow>
                    (case step_cut env a od cur v of Inl e \<Rightarrow> e
                     | Inr (tin, u) \<Rightarrow> step_transcribe env a od tin u)"
  have m: "main env a w = ?rest" using Inr r by (simp add: main_def)
  obtain es where es: "events (snd ?rest) = events w0 @ es" "mkdirs es = []"
    "fail_fast (planned a) (script_calls es) (fst ?rest)"
    using tail_convert [of env a od w0] by blast
  show ?thesis
    unfolding m using ms es
    by (intro exI [of _ "ms @ es"]) (simp add: script_calls_simps mkdirs_simps)
qed

lemma mkdir_fold_other:
  "p \<notin> set qs \<Longrightarrow> fold (\<lambda>q f. if f q = None then f(q \<mapsto> Dir) else f) qs f0 p = f0 p"
  by (induction qs arbitrary: f0) auto

lemma mkdir_parents_inside: "fs (snd (mkdir_parents permitted d w)) (d @ [x]) = fs w (d @ [x])"
proof -
  have "d @ [x] \<notin> set (prefixes d)"
    by (auto simp: in_set_prefixes dest: prefix_length_le)
  then show ?thesis
    by (simp add: mkdir_parents_def Let_def emit_def mkdir_fold_other)
qed

lemma main_after_resolve:
  "resolve_output_dir env a w = Inr (od, w0) \<Longrightarrow>
     main env a w =
       (case step_convert env a od w0 of Inl e \<Rightarrow> e
        | Inr (cur, v) \<Rightarrow>
            (case step_cut env a od cur v of Inl e \<Rightarrow> e
             | Inr (tin, u) \<Rightarrow> step_transcribe env a od tin u))"
  by (simp add: main_def)

lemma main_stage1_fails:
  "resolve_output_dir env a w = Inr (od, w0) \<Longrightarrow> \<not> arg_skip_video_conversion a \<Longrightarrow>
   fst (run_python env ''video_to_audio.py''
          (video_args a (od @ [path_stem (arg_input_file a) @ ''.'' @ arg_audio_format a])) (fs w0)) = Exited n \<Longrightarrow>
   n \<noteq> 0 \<Longrightarrow>
     main env a w =
       (Inr 1, after_script env ''video_to_audio.py''
                 (video_args a (od @ [path_stem (arg_input_file a) @ ''.'' @ arg_audio_format a])) w0)"
  by (simp add: main_after_resolve step_convert_cases Let_def)

lemma main_stage2_fails:
  "resolve_output_dir env a w = Inr (od, w0) \<Longrightarrow> step_convert env a od w0 = Inr (cur, w1) \<Longrightarrow>
   \<not> arg_skip_cutting a \<Longrightarrow>
   fst (run_python env ''cut_audio.py''
          (cutting_args a cur (od @ [path_stem (arg_input_file a) @ ''_chunks''])) (fs w1)) = Exited n \<Longrightarrow>
   n \<noteq> 0 \<Longrightarrow>
     main env a w =
       (Inr 1, after_script env ''cut_audio.py''
                 (cutting_args a cur (od @ [path_stem (arg_input_file a) @ ''_chunks''])) w1)"
  by (simp add: main_after_resolve step_cut_cases Let_def)

lemma main_stage3_fails:
  "resolve_output_dir env a w = Inr (od, w0) \<Longrightarrow> step_convert env a od w0 = Inr (cur, w1) \<Longrightarrow>
   step_cut env a od cur w1 = Inr (tin, w2) \<Longrightarrow> \<not> arg_skip_transcription a \<Longrightarrow>
   fst (run_python env ''transcribe_audio.py''
          (transcription_args a tin (od @ [path_stem (arg_input_file a) @ ''_transcripts''])) (fs w2)) = Exited n \<Longrightarrow>
   n \<noteq> 0 \<Longrightarrow>
     main env a w =
       (Inr 1, after_script env ''transcribe_audio.py''
                 (transcription_args a tin (od @ [path_stem (arg_input_file a) @ ''_transcripts''])) w2)"
  by (simp add: main_after_resolve step_transcribe_cases Let_def)

text \<open>
  Claim C8. In every run of the orchestrator the scripts run are an initial part of the
  non-skipped stages, in pipeline order, and every script but the last one run exited
  with code 0: a stage that fails is the last thing the orchestrator runs, and the
  program then ends in failure (exit code 1 when the script returned a non-zero code);
  exit code 0 means that every non-skipped stage ran. The orchestrator itself creates no
  directory but the one given with \<open>-o\<close>, and creating that one creates nothing inside
  it. When stage 1, 2 or 3 is not skipped and its script returns a non-zero code, the
  program ends with exit code 1 in exactly the world that script left: nothing later
  ran, nothing was created afterwards and nothing was rolled back. In particular a
  failing stage 1 means stages 2 and 3 never run.
\<close>

theorem main_fail_fast:
  "(let r = main env a w; es = new_events w (snd r); calls = script_calls es
    in prefix (map fst calls) (planned a) \<and>
       (\<forall>c\<in>set (butlast calls). snd c = Exited 0) \<and>
       (\<forall>c\<in>set calls. snd c \<noteq> Exited 0 \<longrightarrow> fst r \<noteq> Inr 0) \<and>
       (\<forall>c\<in>set calls. \<forall>n. snd c = Exited n \<and> n \<noteq> 0 \<longrightarrow> fst r = Inr 1) \<and>
       (fst r = Inr 0 \<longrightarrow> map fst calls = planned a) \<and>
       (\<forall>p\<in>set (mkdirs es). arg_output_dir a = Some p)) \<and>
   (\<forall>d x. fs (snd (mkdir_parents (orch_mkdir_permitted env) d w)) (d @ [x]) = fs w (d @ [x])) \<and>
   (\<forall>od w0 n.
      resolve_output_dir env a w = Inr (od, w0) \<and> \<not> arg_skip_video_conversion a \<and>
      fst (run_python env ''video_to_audio.py''
             (video_args a (od @ [path_stem (arg_input_file a) @ ''.'' @ arg_audio_format a])) (fs w0)) = Exited n \<and>
      n \<noteq> 0 \<longrightarrow>
      main env a w =
        (Inr 1, after_script env ''video_to_audio.py''
                  (video_args a (od @ [path_stem (arg_input_file a) @ ''.'' @ arg_audio_format a])) w0)) \<and>
   (\<forall>od w0 cur w1 n.
      resolve_output_dir env a w = Inr (od, w0) \<and> step_convert env a od w0 = Inr (cur, w1) \<and>
      \<not> arg_skip_cutting a \<and>
      fst (run_python env ''cut_audio.py''
             (cutting_args a cur (od @ [path_stem (arg_input_file a) @ ''_chunks''])) (fs w1)) = Exited n \<and>
      n \<noteq> 0 \<longrightarrow>
      main env a w =
        (Inr 1, after_script env ''cut_audio.py''
                  (cutting_args a cur (od @ [path_stem (arg_input_file a) @ ''_chunks''])) w1)) \<and>
   (\<forall>od w0 cur w1 tin w2 n.
      resolve_output_dir env a w = Inr (od, w0) \<and> step_convert env a od w0 = Inr (cur, w1) \<and>
      step_cut env a od cur w1 = Inr (tin, w2) \<and> \<not> arg_skip_transcription a \<and>
      fst (run_python env ''transcribe_audio.py''
             (transcription_args a tin (od @ [path_stem (arg_input_file a) @ ''_transcripts''])) (fs w2)) = Exited n \<and>
      n \<noteq> 0 \<longrightarrow>
      main env a w =
        (Inr 1, after_script env ''transcribe_audio.py''
                  (transcription_args a tin (od @ [path_stem (arg_input_file a) @ ''_transcripts''])) w2))"
proof -
  obtain es where es: "events (snd (main env a w)) = events w @ es"
    and mk: "\<forall>p\<in>set (mkdirs es). arg_output_dir a = Some p"
    and ff: "fail_fast (planned a) (script_calls es) (fst (main env a w))"
    using main_run [of env a w] by blast
  have ne: "new_events w (snd (main env a w)) = es" by (rule new_events_append [OF es])
  have general: "let r = main env a w; es = new_events w (snd r); calls = script_calls es
    in prefix (map fst calls) (planned a) \<and>
       (\<forall>c\<in>set (butlast calls). snd c = Exited 0) \<and>
       (\<forall>c\<in>set calls. snd c \<noteq> Exited 0 \<longrightarrow> fst r \<noteq> Inr 0) \<and>
       (\<forall>c\<in>set calls. \<forall>n. snd c = Exited n \<and> n \<noteq> 0 \<longrightarrow> fst r = Inr 1) \<and>
       (fst r = Inr 0 \<longrightarrow> map fst calls = planned a) \<and>
       (\<forall>p\<in>set (mkdirs es). arg_output_dir a = Some p)"
    unfolding Let_def ne using ff mk unfolding fail_fast_def by blast
  have inside: "\<forall>d x. fs (snd (mkdir_parents (orch_mkdir_permitted env) d w)) (d @ [x]) = fs w (d @ [x])"
    by (simp add: mkdir_parents_inside)
  have s1: "\<forall>od w0 n.
      resolve_output_dir env a w = Inr (od, w0) \<and> \<not> arg_skip_video_conversion a \<and>
      fst (run_python env ''video_to_audio.py''
             (video_args a (od @ [path_stem (arg_input_file a) @ ''.'' @ arg_audio_format a])) (fs w0)) = Exited n \<and>
      n \<noteq> 0 \<longrightarrow>
      main env a w =
        (Inr 1, after_script env ''video_to_audio.py''
                  (video_args a (od @ [path_stem (arg_input_file a) @ ''.'' @ arg_audio_format a])) w0)"
    using main_stage1_fails [of env a w] by blast
  have s2: "\<forall>od w0 cur w1 n.
      resolve_output_dir env a w = Inr (od, w0) \<and> step_convert env a od w0 = Inr (cur, w1) \<and>
      \<not> arg_skip_cutting a \<and>
      fst (run_python env ''cut_audio.py''
             (cutting_args a cur (od @ [path_stem (arg_input_file a) @ ''_chunks''])) (fs w1)) = Exited n \<and>
      n \<noteq> 0 \<longrightarrow>
      main env a w =
        (Inr 1, after_script env ''cut_audio.py''
                  (cutting_args a cur (od @ [path_stem (arg_input_file a) @ ''_chunks''])) w1)"
    using main_stage2_fails [of env a w] by blast
  have s3: "\<forall>od w0 cur w1 tin w2 n.
      resolve_output_dir env a w = Inr (od, w0) \<and> step_convert env a od w0 = Inr (cur, w1) \<and>
      step_cut env a od cur w1 = Inr (tin, w2) \<and> \<not> arg_skip_transcription a \<and>
      fst (run_python env ''transcribe_audio.py''
             (transcription_args a tin (od @ [path_stem (arg_input_file a) @ ''_transcripts''])) (fs w2)) = Exited n \<and>
      n \<noteq> 0 \<longrightarrow>
      main env a w =
        (Inr 1, after_script env ''transcribe_audio.py''
                  (transcription_args a tin (od @ [path_stem (arg_input_file a) @ ''_transcripts''])) w2)"
    using main_stage3_fails [of env a w] by blast
  show ?thesis by (intro conjI general inside s1 s2 s3)
qed

theorem main_fail_fast_witness:
  "fst (main failing_convert_env lecture_args lecture_world) = Inr 1 \<and>
   script_calls (new_events lecture_world (snd (main failing_convert_env lecture_args lecture_world))) =
     [(''video_to_audio.py'', Exited 1)] \<and>
   fs (snd (main failing_convert_env lecture_args lecture_world)) [''lecture_chunks''] = None \<and>
   fs (snd (main failing_convert_env lecture_args lecture_world)) [''lecture_transcripts''] = None"
proof -
  have stem: "path_stem [''lecture.mp4''] = ''lecture''" by code_simp
  have r: "resolve_output_dir failing_convert_env lecture_args lecture_world = Inr ([], lecture_world)"
    by (simp add: resolve_output_dir_def lecture_args_def lecture_world_def path_exists_def path_parent_def)
  have k: "\<not> arg_skip_video_conversion lecture_args" by (simp add: lecture_args_def)
  have oc: "fst (run_python failing_convert_env ''video_to_audio.py''
             (video_args lecture_args ([] @ [path_stem (arg_input_file lecture_args) @ ''.'' @
                arg_audio_format lecture_args])) (fs lecture_world)) = Exited 1"
    by (simp add: failing_convert_env_def)
  have n: "(1::int) \<noteq> 0" by simp
  from main_fail_fast [of failing_convert_env lecture_args lecture_world] r k oc n
  have m: "main failing_convert_env lecture_args lecture_world =
      (Inr 1, after_script failing_convert_env ''video_to_audio.py''
                (video_args lecture_args ([] @ [path_stem (arg_input_file lecture_args) @ ''.'' @
                   arg_audio_format lecture_args])) lecture_world)"
    by blast
  have f: "fs (after_script failing_convert_env ''video_to_audio.py'' xs lecture_world) = fs lecture_world" for xs
    by (simp add: after_script_def failing_convert_env_def)
  have c: "script_calls (new_events lecture_world
      (after_script failing_convert_env ''video_to_audio.py'' xs lecture_world)) =
      [(''video_to_audio.py'', Exited 1)]" for xs
    by (simp add: new_events_def events_after_script script_calls_simps failing_convert_env_def)
  show ?thesis unfolding m by (simp add: f c) (simp add: lecture_world_def)
qed

end
